theory Spec2Isabelle
  imports Complex_Main "HOL-Library.Sublist" "HOL-Library.Multiset"
    "HOL-Library.Char_ord" "HOL-Library.List_Lexorder"
begin

section \<open>JavaScript strings\<close>

text \<open>
  A JavaScript string is modelled as a \<open>string\<close>: one \<open>char\<close> per code unit, read as
  Latin-1, so code units above 0xFF are outside the model. The helpers below follow the
  built-in methods the components call.
\<close>

definition is_ws :: "char \<Rightarrow> bool" where
  \<comment> \<open>White space and line terminators that \<open>String.prototype.trim\<close> strips (those below 0x100).\<close>
  "is_ws c = (of_char c \<in> {9, 10, 11, 12, 13, 32, 160 :: nat})"

definition trim :: "string \<Rightarrow> string" where
  "trim s = rev (dropWhile is_ws (rev (dropWhile is_ws s)))"

definition lower_char :: "char \<Rightarrow> char" where
  "lower_char c =
     (let n = (of_char c :: nat)
      in if (65 \<le> n \<and> n \<le> 90) \<or> (192 \<le> n \<and> n \<le> 222 \<and> n \<noteq> 215)
         then char_of (n + 32) else c)"

definition toLowerCase :: "string \<Rightarrow> string" where
  "toLowerCase s = map lower_char s"

definition lastIndexOf :: "string \<Rightarrow> char \<Rightarrow> int" where
  \<comment> \<open>Index of the last occurrence, \<open>-1\<close> when there is none.\<close>
  "lastIndexOf s c =
     (if c \<in> set s
      then int (length s) - 1 - int (length (takeWhile (\<lambda>x. x \<noteq> c) (rev s)))
      else - 1)"

definition slice :: "string \<Rightarrow> int \<Rightarrow> string" where
  \<comment> \<open>\<open>s.slice(i)\<close>: a negative start counts from the end; the start is clamped to the string.\<close>
  "slice s i =
     (let n = int (length s);
          k = (if i < 0 then max (n + i) 0 else min i n)
      in drop (nat k) s)"

definition startsWith :: "string \<Rightarrow> string \<Rightarrow> bool" where
  "startsWith s p = (take (length p) s = p)"

definition endsWith :: "string \<Rightarrow> string \<Rightarrow> bool" where
  "endsWith s p = (length p \<le> length s \<and> drop (length s - length p) s = p)"

datatype thrown = Error string | NonError

definition error_message :: "thrown \<Rightarrow> string \<Rightarrow> string" where
  \<comment> \<open>\<open>error instanceof Error ? error.message : fallback\<close>\<close>
  "error_message e fallback = (case e of Error m \<Rightarrow> m | NonError \<Rightarrow> fallback)"

section \<open>Data model of the API client\<close>

record variable =
  key :: string
  label :: string
  description :: "string option"
  example :: "string option"
  required :: bool
  dtype :: string

record upload_response =
  filename :: string
  extracted_text_preview :: string
  up_variables :: "variable list"
  suggested_title :: string
  suggested_doc_type :: string
  up_similarity_tags :: "string list"

section \<open>FileUpload.uploadFile\<close>

record js_file =
  file_name :: string
  file_type :: string
  file_bytes :: string

datatype upload_event =
    OnError string
  | SetIsUploading bool
  | OnUploadStart
  | Fetch js_file
  | OnUploadComplete upload_response

definition allowedTypes :: "string list" where
  "allowedTypes =
     [''application/vnd.openxmlformats-officedocument.wordprocessingml.document'',
      ''application/pdf'']"

definition allowedExtensions :: "string list" where
  "allowedExtensions = [''.docx'', ''.pdf'']"

definition extension :: "js_file \<Rightarrow> string" where
  "extension f = slice (toLowerCase (file_name f)) (lastIndexOf (file_name f) CHR ''.'')"

definition uploadFile :: "(js_file \<Rightarrow> thrown + upload_response) \<Rightarrow> js_file \<Rightarrow> upload_event list" where
  \<comment> \<open>The first argument is the server behind \<open>POST /api/upload\<close>: \<open>Inl\<close> is what the
      \<open>try\<close> block throws (a failed fetch, or the \<open>Error\<close> built from a non-ok response).
      The result is the sequence of callbacks, state updates and requests, in order.\<close>
  "uploadFile server f =
     (if extension f \<notin> set allowedExtensions
      then [OnError ''Please upload a .docx or .pdf file'']
      else [SetIsUploading True, OnUploadStart, Fetch f] @
           (case server f of
              Inr data \<Rightarrow> [OnUploadComplete data]
            | Inl e \<Rightarrow> [OnError (error_message e ''Upload failed'')]) @
           [SetIsUploading False])"

definition is_fetch :: "upload_event \<Rightarrow> bool" where
  "is_fetch e = (case e of Fetch _ \<Rightarrow> True | _ \<Rightarrow> False)"

section \<open>The API client (lib/api.ts)\<close>

record template_match =
  m_template_id :: string
  m_title :: string
  score :: real
  reason :: string
  m_doc_type :: "string option"
  m_similarity_tags :: "string list"

record chat_match_response =
  best_match :: "template_match option"
  alternatives :: "template_match list"
  prefilled_variables :: "string \<rightharpoonup> string"
  missing_variables :: "string list"

record variable_question =
  q_key :: string
  question :: string
  hint :: "string option"
  q_example :: "string option"
  q_required :: bool

record draft_response =
  draft_id :: nat
  draft_md :: string
  template_title :: string
  d_created_at :: string

record template =
  t_id :: nat
  template_id :: string
  title :: string
  doc_type :: "string option"
  jurisdiction :: "string option"
  file_description :: "string option"
  similarity_tags :: "string list"
  body_md :: string
  variables :: "variable list"
  t_created_at :: string

text \<open>
  What \<open>fetch\<close> gives back: the promise rejects, or a response arrives that is ok or
  not; a response that is not ok carries the \<open>detail\<close> of its JSON body, if any.
\<close>

datatype 'a http = FetchFailed string | NotOk "string option" | Ok 'a

definition or_else :: "string option \<Rightarrow> string \<Rightarrow> string" where
  \<comment> \<open>\<open>x || fallback\<close> on an optional string: \<open>undefined\<close> and \<open>''\<close> are falsy.\<close>
  "or_else x fallback = (case x of None \<Rightarrow> fallback | Some v \<Rightarrow> if v = [] then fallback else v)"

definition api_result :: "string \<Rightarrow> 'a http \<Rightarrow> thrown + 'a" where
  \<comment> \<open>\<open>if (!response.ok) throw new Error(error.detail || fallback); return response.json()\<close>\<close>
  "api_result fallback r =
     (case r of
        FetchFailed m \<Rightarrow> Inl (Error m)
      | NotOk detail \<Rightarrow> Inl (Error (or_else detail fallback))
      | Ok a \<Rightarrow> Inr a)"

record server =
  match_endpoint :: "string \<Rightarrow> chat_match_response http"
  questions_endpoint :: "string \<Rightarrow> string list \<Rightarrow> variable_question list http"
  generate_endpoint :: "string \<Rightarrow> (string \<rightharpoonup> string) \<Rightarrow> string \<Rightarrow> draft_response http"
  template_endpoint :: "string \<Rightarrow> template http"

definition matchTemplate :: "server \<Rightarrow> string \<Rightarrow> thrown + chat_match_response" where
  "matchTemplate srv query = api_result ''Failed to match template'' (match_endpoint srv query)"

definition getQuestions :: "server \<Rightarrow> string \<Rightarrow> string list \<Rightarrow> thrown + variable_question list" where
  "getQuestions srv templateId missingKeys =
     api_result ''Failed to get questions'' (questions_endpoint srv templateId missingKeys)"

definition generateDraft ::
  "server \<Rightarrow> string \<Rightarrow> (string \<rightharpoonup> string) \<Rightarrow> string \<Rightarrow> thrown + draft_response" where
  "generateDraft srv templateId answers userQuery =
     api_result ''Failed to generate draft'' (generate_endpoint srv templateId answers userQuery)"

definition getTemplate :: "server \<Rightarrow> string \<Rightarrow> thrown + template" where
  \<comment> \<open>This one ignores the response body: any response that is not ok is 'Template not found'.\<close>
  "getTemplate srv templateId =
     (case template_endpoint srv templateId of
        FetchFailed m \<Rightarrow> Inl (Error m)
      | NotOk _ \<Rightarrow> Inl (Error ''Template not found'')
      | Ok t \<Rightarrow> Inr t)"

section \<open>The chat interface (components/ChatInterface.tsx)\<close>

datatype message_type = User | Assistant | System

text \<open>
  The text of a message, one constructor per template string of the component, with the
  values interpolated into it as arguments.
\<close>

datatype content =
    UserText string
  | VarsText "(string \<times> string \<times> string) list"
  | FailedVars
  | NoMatch
  | FoundMatch real string
  | NeedDetails
  | ErrorText string
  | AnswersText "string \<rightharpoonup> string"
  | DraftReady
  | FailedDraft string
  | GreatChoice
  | FailedQuestions

record message =
  m_type :: message_type
  content :: content
  templateMatch :: "template_match option"
  m_alternatives :: "template_match list option"
  questions :: "variable_question list option"
  draft :: "draft_response option"

datatype request =
    MatchRequest string
  | QuestionsRequest string "string list"
  | DraftRequest string "string \<rightharpoonup> string" string
  | TemplateRequest string

text \<open>
  The component's React state. \<open>requests\<close> is not a state variable of the component: it
  logs the API calls issued so far, in order. Message ids (\<open>Date.now()\<close>) are left out.
  A handler is modelled as one atomic step from the state it was created in.
\<close>

record chat_state =
  messages :: "message list"
  input :: string
  isLoading :: bool
  currentTemplate :: "string option"
  currentAnswers :: "string \<rightharpoonup> string"
  pendingQuestions :: "variable_question list option"
  userQuery :: string
  requests :: "request list"

definition msg :: "message_type \<Rightarrow> content \<Rightarrow> message" where
  "msg t c = \<lparr>m_type = t, content = c, templateMatch = None, m_alternatives = None,
              questions = None, draft = None\<rparr>"

definition addMessage :: "message \<Rightarrow> chat_state \<Rightarrow> chat_state" where
  "addMessage m s = s\<lparr>messages := messages s @ [m]\<rparr>"

definition issue :: "request \<Rightarrow> chat_state \<Rightarrow> chat_state" where
  "issue r s = s\<lparr>requests := requests s @ [r]\<rparr>"

definition truthy :: "string option \<Rightarrow> bool" where
  \<comment> \<open>Truthiness of a \<open>string | null\<close>: \<open>null\<close> and the empty string are falsy.\<close>
  "truthy x = (case x of None \<Rightarrow> False | Some v \<Rightarrow> v \<noteq> [])"

definition handleGenerateDraft ::
  "server \<Rightarrow> string \<Rightarrow> string \<Rightarrow> (string \<rightharpoonup> string) \<Rightarrow> chat_state \<Rightarrow> chat_state" where
  \<comment> \<open>The second argument is the \<open>userQuery\<close> the closure captured.\<close>
  "handleGenerateDraft srv query templateId answers s =
     (let s1 = issue (DraftRequest templateId answers query) s
      in case generateDraft srv templateId answers query of
           Inr d \<Rightarrow> addMessage ((msg Assistant DraftReady)\<lparr>draft := Some d\<rparr>) s1
         | Inl e \<Rightarrow> addMessage (msg System (FailedDraft (error_message e ''Unknown error''))) s1)"

definition vars_line :: "(string \<rightharpoonup> string) \<Rightarrow> variable \<Rightarrow> string \<times> string \<times> string" where
  "vars_line answers v = (label v, key v, or_else (answers (key v)) ''_not filled_'')"

definition vars_command :: "server \<Rightarrow> string \<Rightarrow> (string \<rightharpoonup> string) \<Rightarrow> chat_state \<Rightarrow> chat_state" where
  "vars_command srv templateId answers s =
     (let s1 = issue (TemplateRequest templateId) s
      in case getTemplate srv templateId of
           Inr t \<Rightarrow> addMessage (msg Assistant (VarsText (map (vars_line answers) (variables t)))) s1
         | Inl e \<Rightarrow> addMessage (msg System FailedVars) s1)"

definition after_match ::
  "server \<Rightarrow> string \<Rightarrow> chat_match_response \<Rightarrow> template_match \<Rightarrow> chat_state \<Rightarrow> chat_state" where
  \<comment> \<open>\<open>handleSend\<close> from "Store prefilled variables" to the end of the \<open>try\<close> block.\<close>
  \<comment> \<open>\<open>matchResult.prefilled_variables || {}\<close> is the map itself: the field is not optional.\<close>
  "after_match srv query matchResult best s =
     (let s1 = s\<lparr>currentAnswers := prefilled_variables matchResult,
                  currentTemplate := Some (m_template_id best)\<rparr>;
          s2 = addMessage ((msg Assistant (FoundMatch (score best) (reason best)))
                 \<lparr>templateMatch := Some best, m_alternatives := Some (alternatives matchResult)\<rparr>) s1
      in if missing_variables matchResult \<noteq> []
         then (let s3 = issue (QuestionsRequest (m_template_id best) (missing_variables matchResult)) s2
               in case getQuestions srv (m_template_id best) (missing_variables matchResult) of
                    Inl e \<Rightarrow> addMessage (msg System (ErrorText (error_message e ''Something went wrong''))) s3
                  | Inr qs \<Rightarrow>
                      if qs \<noteq> []
                      then addMessage ((msg Assistant NeedDetails)\<lparr>questions := Some qs\<rparr>)
                             (s3\<lparr>pendingQuestions := Some qs\<rparr>)
                      else handleGenerateDraft srv query (m_template_id best)
                             (prefilled_variables matchResult) s3)
         else handleGenerateDraft srv query (m_template_id best) (prefilled_variables matchResult) s2)"

definition handleSend :: "server \<Rightarrow> chat_state \<Rightarrow> chat_state" where
  \<comment> \<open>\<open>handleGenerateDraft\<close> is the closure of the render \<open>handleSend\<close> belongs to, so the
      query it sends is \<open>userQuery\<close> as it was before this call.\<close>
  "handleSend srv s =
     (if trim (input s) = [] \<or> isLoading s then s
      else
        let userMessage = trim (input s);
            s1 = addMessage (msg User (UserText userMessage)) (s\<lparr>input := [], userQuery := userMessage\<rparr>)
        in if startsWith userMessage ''/vars'' \<and> truthy (currentTemplate s)
           then (case currentTemplate s of
                   Some templateId \<Rightarrow> vars_command srv templateId (currentAnswers s) s1
                 | None \<Rightarrow> s1)
           else
             let s2 = issue (MatchRequest userMessage) (s1\<lparr>isLoading := True\<rparr>)
             in (case matchTemplate srv userMessage of
                   Inl e \<Rightarrow> addMessage (msg System (ErrorText (error_message e ''Something went wrong''))) s2
                 | Inr matchResult \<Rightarrow>
                     (case best_match matchResult of
                        None \<Rightarrow> addMessage (msg Assistant NoMatch) s2
                      | Some best \<Rightarrow> after_match srv (userQuery s) matchResult best s2))
                \<lparr>isLoading := False\<rparr>)"

definition handleAnswerSubmit :: "server \<Rightarrow> (string \<rightharpoonup> string) \<Rightarrow> chat_state \<Rightarrow> chat_state" where
  "handleAnswerSubmit srv answers s =
     (let allAnswers = currentAnswers s ++ answers;
          s1 = addMessage (msg User (AnswersText answers))
                 (s\<lparr>currentAnswers := allAnswers, pendingQuestions := None\<rparr>)
      in case currentTemplate s of
           None \<Rightarrow> s1
         | Some templateId \<Rightarrow>
             if templateId = [] then s1
             else (handleGenerateDraft srv (userQuery s) templateId allAnswers (s1\<lparr>isLoading := True\<rparr>))
                    \<lparr>isLoading := False\<rparr>)"

definition handleUseTemplate :: "server \<Rightarrow> string \<Rightarrow> chat_state \<Rightarrow> chat_state" where
  "handleUseTemplate srv templateId s =
     (let s1 = issue (TemplateRequest templateId) (s\<lparr>currentTemplate := Some templateId\<rparr>)
      in case getTemplate srv templateId of
           Inl e \<Rightarrow> addMessage (msg System FailedQuestions) s1
         | Inr t \<Rightarrow>
             let s2 = issue (QuestionsRequest templateId (map key (variables t))) s1
             in case getQuestions srv templateId (map key (variables t)) of
                  Inl e \<Rightarrow> addMessage (msg System FailedQuestions) s2
                | Inr qs \<Rightarrow>
                    if qs \<noteq> []
                    then addMessage ((msg Assistant GreatChoice)\<lparr>questions := Some qs\<rparr>)
                           (s2\<lparr>pendingQuestions := Some qs\<rparr>)
                    else s2)"

text \<open>What a message puts on the screen: the "Use This Template" buttons and the form fields.\<close>

definition template_choices :: "message \<Rightarrow> string list" where
  \<comment> \<open>The template ids offered by buttons: the card of the best match, and inside that
      card the alternatives.\<close>
  "template_choices m =
     (case templateMatch m of
        None \<Rightarrow> []
      | Some best \<Rightarrow>
          m_template_id best #
          (case m_alternatives m of None \<Rightarrow> [] | Some alts \<Rightarrow> map m_template_id alts))"

definition form_fields :: "message \<Rightarrow> string list" where
  \<comment> \<open>The keys of the inputs \<open>QuestionForm\<close> renders, top to bottom.\<close>
  "form_fields m = (case questions m of None \<Rightarrow> [] | Some qs \<Rightarrow> map q_key qs)"

definition blank_answer :: "string option \<Rightarrow> bool" where
  \<comment> \<open>\<open>!answers[q.key]?.trim()\<close>\<close>
  "blank_answer a = (case a of None \<Rightarrow> True | Some v \<Rightarrow> trim v = [])"

definition form_handleSubmit ::
  "variable_question list \<Rightarrow> (string \<rightharpoonup> string) \<Rightarrow> string list + (string \<rightharpoonup> string)" where
  \<comment> \<open>\<open>QuestionForm.handleSubmit\<close>: \<open>Inl\<close> is the alert naming the required keys left blank,
      \<open>Inr\<close> the answers handed to \<open>onSubmit\<close>.\<close>
  "form_handleSubmit qs answers =
     (let missing = filter (\<lambda>q. q_required q \<and> blank_answer (answers (q_key q))) qs
      in if missing \<noteq> [] then Inl (map q_key missing) else Inr answers)"

definition is_questions_request :: "request \<Rightarrow> bool" where
  "is_questions_request r = (case r of QuestionsRequest _ _ \<Rightarrow> True | _ \<Rightarrow> False)"

definition submit_batches :: "server \<Rightarrow> (string \<rightharpoonup> string) list \<Rightarrow> chat_state \<Rightarrow> chat_state" where
  \<comment> \<open>The user submits one answer batch after the other.\<close>
  "submit_batches srv batches s = foldl (\<lambda>st batch. handleAnswerSubmit srv batch st) s batches"

section \<open>VariableReview.handleSave and the upload page\<close>

text \<open>
  \<open>handleSave\<close> builds a regular expression from each example with \<open>new RegExp(v.example, 'g')\<close>.
  The model covers a fragment of ECMAScript patterns: a pattern made of ordinary characters
  and \<open>.\<close> compiles to a sequence of atoms; a pattern with a \<open>(\<close> that nothing can close (no
  \<open>)\<close>, and no backslash or \<open>[\<close> that could make the \<open>(\<close> literal) is a \<open>SyntaxError\<close>; any
  other pattern is outside the fragment and reported as \<open>Unsupported\<close>.
\<close>

datatype atom = Ch char | AnyChar

datatype compile_error = SyntaxError | Unsupported

definition syntax_char :: "char \<Rightarrow> bool" where
  "syntax_char c = (c \<in> set (''^$.*+?()[]{}|'' @ [CHR 0x5C]))"

definition line_terminator :: "char \<Rightarrow> bool" where
  "line_terminator c = (of_char c \<in> {10, 13 :: nat})"

definition in_fragment :: "char \<Rightarrow> bool" where
  "in_fragment c = (if c = CHR ''.'' then True else \<not> syntax_char c)"

definition to_atom :: "char \<Rightarrow> atom" where
  "to_atom c = (if c = CHR ''.'' then AnyChar else Ch c)"

definition compile :: "string \<Rightarrow> compile_error + atom list" where
  "compile p =
     (if list_all in_fragment p then Inr (map to_atom p)
      else if CHR ''('' \<in> set p \<and> CHR '')'' \<notin> set p \<and> CHR 0x5C \<notin> set p \<and> CHR ''['' \<notin> set p
      then Inl SyntaxError
      else Inl Unsupported)"

primrec atom_matches :: "atom \<Rightarrow> char \<Rightarrow> bool" where
  "atom_matches (Ch a) c = (a = c)"
| "atom_matches AnyChar c = (\<not> line_terminator c)"

definition matches_at :: "atom list \<Rightarrow> string \<Rightarrow> bool" where
  \<comment> \<open>The pattern matches at the start of the string.\<close>
  "matches_at p s = (length p \<le> length s \<and> list_all2 atom_matches p (take (length p) s))"

fun expand :: "string \<Rightarrow> string \<Rightarrow> string \<Rightarrow> string \<Rightarrow> string" where
  \<comment> \<open>\<open>GetSubstitution\<close> for a pattern without capture groups: \<open>$$\<close>, \<open>$&\<close>, the text before
      the match (dollar, backquote) and the text after it (dollar, quote); any other \<open>$\<close> is literal.\<close>
  "expand [] matched pre post = []"
| "expand [c] matched pre post = [c]"
| "expand (c # d # r) matched pre post =
     (if c = CHR ''$'' then
        (if d = CHR ''$'' then CHR ''$'' # expand r matched pre post
         else if d = CHR ''&'' then matched @ expand r matched pre post
         else if d = CHR 0x60 then pre @ expand r matched pre post
         else if d = CHR 0x27 then post @ expand r matched pre post
         else c # expand (d # r) matched pre post)
      else c # expand (d # r) matched pre post)"

function replace_g :: "atom list \<Rightarrow> string \<Rightarrow> string \<Rightarrow> string \<Rightarrow> string" where
  \<comment> \<open>\<open>rest.replace(regex, replacement)\<close> with the \<open>g\<close> flag, scanning \<open>rest\<close> with \<open>behind\<close>
      already consumed: leftmost matches, none overlapping; after an empty match the scan
      moves one character on.\<close>
  "replace_g p replacement behind rest =
     (if matches_at p rest
      then expand replacement (take (length p) rest) behind (drop (length p) rest) @
           (if p = []
            then (case rest of [] \<Rightarrow> [] | c # cs \<Rightarrow> c # replace_g p replacement (behind @ [c]) cs)
            else replace_g p replacement (behind @ take (length p) rest) (drop (length p) rest))
      else (case rest of [] \<Rightarrow> [] | c # cs \<Rightarrow> c # replace_g p replacement (behind @ [c]) cs))"
  by pat_completeness auto
termination
  by (relation "measure (\<lambda>(p, r, b, s). length s)")
     (auto simp: matches_at_def intro!: diff_less)

declare replace_g.simps [simp del]

definition placeholder :: "string \<Rightarrow> string" where
  "placeholder k = ''{{'' @ k @ ''}}''"

fun generate_body :: "variable list \<Rightarrow> string \<Rightarrow> compile_error + string" where
  \<comment> \<open>The \<open>forEach\<close> of \<open>handleSave\<close>; \<open>Inl\<close> is the exception \<open>new RegExp\<close> throws.\<close>
  "generate_body [] bodyMd = Inr bodyMd"
| "generate_body (v # vs) bodyMd =
     (case example v of
        None \<Rightarrow> generate_body vs bodyMd
      | Some e \<Rightarrow>
          if e = [] then generate_body vs bodyMd
          else (case compile e of
                  Inl err \<Rightarrow> Inl err
                | Inr p \<Rightarrow> generate_body vs (replace_g p (placeholder (key v)) [] bodyMd)))"

fun split_on :: "char \<Rightarrow> string \<Rightarrow> string list" where
  "split_on c [] = [[]]"
| "split_on c (x # xs) =
     (if x = c then [] # split_on c xs
      else (case split_on c xs of [] \<Rightarrow> [[x]] | y # ys \<Rightarrow> (x # y) # ys))"

record review_state =
  r_title :: string
  r_docType :: string
  r_tags :: string
  r_variables :: "variable list"

record save_data =
  s_title :: string
  s_docType :: string
  s_tags :: "string list"
  s_variables :: "variable list"
  bodyMd :: string

definition handleSave :: "review_state \<Rightarrow> string \<Rightarrow> compile_error + save_data" where
  \<comment> \<open>The second argument is \<open>extractedTextPreview\<close>. \<open>Inr\<close> is the argument of \<open>onSave\<close>; on
      \<open>Inl\<close> the handler has thrown and \<open>onSave\<close> is not called.\<close>
  "handleSave st extractedTextPreview =
     (case generate_body (r_variables st) extractedTextPreview of
        Inl err \<Rightarrow> Inl err
      | Inr b \<Rightarrow>
          Inr \<lparr>s_title = r_title st, s_docType = r_docType st,
               s_tags = filter (\<lambda>t. t \<noteq> []) (map trim (split_on CHR '','' (r_tags st))),
               s_variables = r_variables st, bodyMd = b\<rparr>)"



section \<open>The template resolution engine, from the specification\<close>

text \<open>
  The engine (matcher, question generator, renderer) runs in the backend, whose code is
  not among the sources; only the frontend that calls it is. The definitions of this
  section follow the specification's words.
\<close>

datatype engine_error = InvalidInputError | StorageError

subsection \<open>Placeholders and the renderer\<close>

datatype segment = Lit char | Hole string

definition brace_free :: "string \<Rightarrow> bool" where
  "brace_free k = (CHR ''{'' \<notin> set k \<and> CHR ''}'' \<notin> set k)"

definition not_brace :: "char \<Rightarrow> bool" where
  "not_brace c = (c \<noteq> CHR ''{'' \<and> c \<noteq> CHR ''}'')"

definition read_placeholder :: "string \<Rightarrow> (string \<times> string) option" where
  \<comment> \<open>Modelled from the spec: what a placeholder is. The text starts with a placeholder when
      it starts with \<open>{{\<close>, then a key (a run of characters other than braces), then \<open>}}\<close>;
      the result is the key and the text behind the placeholder.\<close>
  "read_placeholder s =
     (if take 2 s = ''{{''
      then (let k = takeWhile not_brace (drop 2 s);
                r = dropWhile not_brace (drop 2 s)
            in if take 2 r = ''}}'' then Some (k, drop 2 r) else None)
      else None)"

function scan :: "string \<Rightarrow> segment list" where
  \<comment> \<open>Modelled from the spec: the backend's reading of a body as literal text and
      \<open>{{key}}\<close> placeholders is missing. One pass, left to right: where the text starts
      with a placeholder, the scan goes on behind it; any other character is literal.\<close>
  "scan [] = []"
| "scan (c # s) =
     (case read_placeholder (c # s) of
        Some (k, r) \<Rightarrow> Hole k # scan r
      | None \<Rightarrow> Lit c # scan s)"
  by pat_completeness auto
termination
proof -
  have shorter: "length r < length s" if "read_placeholder s = Some (k, r)" for s k r
  proof -
    from that have "take 2 s = ''{{''" and "r = drop 2 (dropWhile not_brace (drop 2 s))"
      by (auto simp: read_placeholder_def Let_def split: if_splits)
    moreover have "length (dropWhile not_brace (drop 2 s)) \<le> length (drop 2 s)"
      by (rule length_dropWhile_le)
    moreover have "2 \<le> length s"
    proof -
      from \<open>take 2 s = ''{{''\<close> have "length (take 2 s) = 2" by simp
      then show ?thesis by simp
    qed
    ultimately show ?thesis by simp
  qed
  show ?thesis
    by (relation "measure length") (auto dest!: shorter)
qed

primrec hole_keys :: "segment list \<Rightarrow> string list" where
  "hole_keys [] = []"
| "hole_keys (g # gs) = (case g of Lit c \<Rightarrow> hole_keys gs | Hole k \<Rightarrow> k # hole_keys gs)"

definition placeholders :: "string \<Rightarrow> string list" where
  \<comment> \<open>Modelled from the spec: the keys of the \<open>{{key}}\<close> placeholders appearing in a body,
      in order of appearance.\<close>
  "placeholders body = hole_keys (scan body)"

definition emit :: "string \<Rightarrow> (string \<rightharpoonup> string) \<Rightarrow> segment \<Rightarrow> string" where
  "emit marker vals g =
     (case g of
        Lit c \<Rightarrow> [c]
      | Hole k \<Rightarrow> (case vals k of Some v \<Rightarrow> v | None \<Rightarrow> marker))"

definition render :: "string \<Rightarrow> template \<Rightarrow> (string \<rightharpoonup> string) \<Rightarrow> string \<times> string list" where
  \<comment> \<open>Modelled from the spec: the renderer (section 4.4) is missing. Every placeholder of the
      body is replaced by its value, inserted as literal text; a placeholder without a
      value is replaced by the empty-value marker (the first argument: the spec does not
      fix its text) and its key reported in the warning list returned alongside.\<close>
  "render marker t vals =
     (concat (map (emit marker vals) (scan (body_md t))),
      filter (\<lambda>k. vals k = None) (placeholders (body_md t)))"

primrec unparse :: "segment \<Rightarrow> string" where
  "unparse (Lit c) = [c]"
| "unparse (Hole k) = placeholder k"

subsection \<open>The matcher\<close>

record match_result =
  best :: "template_match option"
  alts :: "template_match list"

definition threshold :: real where
  "threshold = 1 / 2"

definition better :: "(template_match \<Rightarrow> nat) \<Rightarrow> template_match \<Rightarrow> template_match \<Rightarrow> bool" where
  \<comment> \<open>Ranking order: higher score, then more overlapping tags, then lowest id.\<close>
  "better overlap a b =
     (if score a = score b
      then (if overlap a = overlap b then m_template_id a \<le> m_template_id b
            else overlap b < overlap a)
      else score b < score a)"

fun insert_ranked ::
  "(template_match \<Rightarrow> nat) \<Rightarrow> template_match \<Rightarrow> template_match list \<Rightarrow> template_match list" where
  "insert_ranked overlap a [] = [a]"
| "insert_ranked overlap a (b # bs) =
     (if better overlap a b then a # b # bs else b # insert_ranked overlap a bs)"

definition rank :: "(template_match \<Rightarrow> nat) \<Rightarrow> template_match list \<Rightarrow> template_match list" where
  "rank overlap cs = foldr (insert_ranked overlap) cs []"

definition select_best :: "template_match list \<Rightarrow> match_result" where
  "select_best ranked =
     (case ranked of
        [] \<Rightarrow> \<lparr>best = None, alts = []\<rparr>
      | c # cs \<Rightarrow>
          if threshold \<le> score c then \<lparr>best = Some c, alts = cs\<rparr>
          else \<lparr>best = None, alts = ranked\<rparr>)"

definition score_candidates ::
  "(string \<Rightarrow> template list \<Rightarrow> template_match list option) \<Rightarrow>
   (string \<Rightarrow> template list \<Rightarrow> template_match list) \<Rightarrow>
   string \<Rightarrow> template list \<Rightarrow> template_match list" where
  \<comment> \<open>The candidates with their scores: from the port, or from the lexical scorer when
      the port is unavailable.\<close>
  "score_candidates classify lexical query catalogue =
     (case classify query catalogue of
        Some cs \<Rightarrow> cs
      | None \<Rightarrow> lexical query catalogue)"

definition match ::
  "(string \<Rightarrow> template list \<Rightarrow> template_match list option) \<Rightarrow>
   (string \<Rightarrow> template list \<Rightarrow> template_match list) \<Rightarrow>
   (string \<Rightarrow> template_match \<Rightarrow> nat) \<Rightarrow>
   string \<Rightarrow> template list \<Rightarrow> engine_error + match_result" where
  \<comment> \<open>Modelled from the spec: the matcher (section 4.1) is missing. \<open>classify\<close> is the
      text-intelligence port (\<open>None\<close> when it is unavailable), \<open>lexical\<close> the deterministic
      fallback scorer and \<open>overlap\<close> the keyword overlap of the tie-break; the spec gives no
      formula for the last two, so they are parameters.\<close>
  "match classify lexical overlap query catalogue =
     (if trim query = [] then Inl InvalidInputError
      else Inr (select_best (rank (overlap query)
                  (score_candidates classify lexical query catalogue))))"

subsection \<open>The question generator\<close>

definition fallback_question :: "variable \<Rightarrow> string" where
  "fallback_question v = ''What is the '' @ label v @ ''?''"

definition ask_one :: "(variable \<Rightarrow> template \<Rightarrow> string option) \<Rightarrow> template \<Rightarrow> variable \<Rightarrow> variable_question" where
  "ask_one phraseQuestion t v =
     \<lparr>q_key = key v,
      question = (case phraseQuestion v t of
                    None \<Rightarrow> fallback_question v
                  | Some q \<Rightarrow> if trim q = [] then fallback_question v else q),
      hint = description v, q_example = example v, q_required = required v\<rparr>"

fun ask ::
  "(variable \<Rightarrow> template \<Rightarrow> string option) \<Rightarrow> string list \<Rightarrow> template \<Rightarrow>
   engine_error + variable_question list" where
  \<comment> \<open>Modelled from the spec: the question generator (section 4.3) is missing. \<open>phraseQuestion\<close>
      is the port (\<open>None\<close> when it is unavailable). One question per key, in the order of the
      keys; a key the template does not define is an \<open>InvalidInputError\<close>.\<close>
  "ask phraseQuestion [] t = Inr []"
| "ask phraseQuestion (k # ks) t =
     (case find (\<lambda>v. key v = k) (variables t) of
        None \<Rightarrow> Inl InvalidInputError
      | Some v \<Rightarrow>
          (case ask phraseQuestion ks t of
             Inl e \<Rightarrow> Inl e
           | Inr qs \<Rightarrow> Inr (ask_one phraseQuestion t v # qs)))"

section \<open>Replacement as a relation\<close>


section \<open>Concrete inputs\<close>

definition notes_txt :: js_file where
  \<comment> \<open>A text file that declares the MIME type of a PDF.\<close>
  "notes_txt = \<lparr>file_name = ''notes.txt'', file_type = ''application/pdf'', file_bytes = ''hello''\<rparr>"

definition unreachable_upload :: "js_file \<Rightarrow> thrown + upload_response" where
  "unreachable_upload f = Inl (Error ''Failed to fetch'')"

definition insurer_match :: template_match where
  "insurer_match =
     \<lparr>m_template_id = ''incident-notice'', m_title = ''Incident Notice to Insurer'',
      score = 9 / 10, reason = ''insurance notice'', m_doc_type = Some ''legal_notice'',
      m_similarity_tags = [''insurance'', ''notice'', ''india'']\<rparr>"

definition partial_response :: chat_match_response where
  "partial_response =
     \<lparr>best_match = Some insurer_match, alternatives = [],
      prefilled_variables = [''incident_date'' \<mapsto> ''2024-03-01''],
      missing_variables = [''policy_number'']\<rparr>"

definition full_response :: chat_match_response where
  "full_response =
     \<lparr>best_match = Some insurer_match, alternatives = [],
      prefilled_variables = [''incident_date'' \<mapsto> ''2024-03-01'', ''policy_number'' \<mapsto> ''ABC123''],
      missing_variables = []\<rparr>"

definition policy_question :: variable_question where
  "policy_question =
     \<lparr>q_key = ''policy_number'', question = ''What is the Policy Number?'', hint = None,
      q_example = Some ''ABC123'', q_required = True\<rparr>"

definition notice_draft :: draft_response where
  "notice_draft =
     \<lparr>draft_id = 1, draft_md = ''Policy: ABC123'', template_title = ''Incident Notice to Insurer'',
      d_created_at = ''2024-03-02''\<rparr>"

definition quiet_server :: server where
  "quiet_server =
     \<lparr>match_endpoint = (\<lambda>q. Ok partial_response),
      questions_endpoint = (\<lambda>t ks. Ok []),
      generate_endpoint = (\<lambda>t a q. Ok notice_draft),
      template_endpoint = (\<lambda>t. NotOk None)\<rparr>"

definition asking_server :: server where
  "asking_server =
     \<lparr>match_endpoint = (\<lambda>q. Ok partial_response),
      questions_endpoint = (\<lambda>t ks. Ok [policy_question]),
      generate_endpoint = (\<lambda>t a q. Ok notice_draft),
      template_endpoint = (\<lambda>t. NotOk None)\<rparr>"

definition prefilling_server :: server where
  "prefilling_server =
     \<lparr>match_endpoint = (\<lambda>q. Ok full_response),
      questions_endpoint = (\<lambda>t ks. Ok [policy_question]),
      generate_endpoint = (\<lambda>t a q. Ok notice_draft),
      template_endpoint = (\<lambda>t. NotOk None)\<rparr>"

definition fresh_chat :: chat_state where
  "fresh_chat =
     \<lparr>messages = [], input = ''Draft a notice to insurer'', isLoading = False,
      currentTemplate = None, currentAnswers = Map.empty, pendingQuestions = None,
      userQuery = [], requests = []\<rparr>"

definition blank_chat :: chat_state where
  "blank_chat = fresh_chat\<lparr>input := ''   ''\<rparr>"

definition port_down :: "string \<Rightarrow> template list \<Rightarrow> template_match list option" where
  "port_down q catalogue = None"

definition no_overlap :: "string \<Rightarrow> template_match \<Rightarrow> nat" where
  "no_overlap q c = 0"

definition lease_match :: template_match where
  "lease_match =
     \<lparr>m_template_id = ''lease'', m_title = ''Residential Lease Agreement'',
      score = 3 / 10, reason = ''mentions a property'', m_doc_type = Some ''agreement'',
      m_similarity_tags = [''lease'', ''rent'']\<rparr>"

definition nda_match :: template_match where
  "nda_match =
     \<lparr>m_template_id = ''nda'', m_title = ''Non-Disclosure Agreement'',
      score = 2 / 5, reason = ''mentions confidentiality'', m_doc_type = Some ''agreement'',
      m_similarity_tags = [''nda'']\<rparr>"

definition weak_scores :: "string \<Rightarrow> template list \<Rightarrow> template_match list" where
  "weak_scores q catalogue = [lease_match, nda_match]"

definition undecided_response :: chat_match_response where
  "undecided_response =
     \<lparr>best_match = None, alternatives = [nda_match, lease_match],
      prefilled_variables = Map.empty, missing_variables = []\<rparr>"

definition undecided_server :: server where
  "undecided_server =
     \<lparr>match_endpoint = (\<lambda>q. Ok undecided_response),
      questions_endpoint = (\<lambda>t ks. Ok []),
      generate_endpoint = (\<lambda>t a q. Ok notice_draft),
      template_endpoint = (\<lambda>t. NotOk None)\<rparr>"

definition collecting_chat :: chat_state where
  \<comment> \<open>The conversation after the first message, waiting for the policy number.\<close>
  "collecting_chat = handleSend asking_server fresh_chat"

definition policy_answer :: "string \<rightharpoonup> string" where
  "policy_answer = [''policy_number'' \<mapsto> ''ABC123'']"

definition tenant_variable :: variable where
  "tenant_variable =
     \<lparr>key = ''tenant'', label = ''Tenant'', description = None, example = Some ''Ann Lee'',
      required = True, dtype = ''party-name''\<rparr>"

definition rent_variable :: variable where
  "rent_variable =
     \<lparr>key = ''rent'', label = ''Monthly Rent'', description = Some ''in rupees'', example = None,
      required = True, dtype = ''amount''\<rparr>"

definition lease_template :: template where
  "lease_template =
     \<lparr>t_id = 4, template_id = ''lease'', title = ''Residential Lease Agreement'',
      doc_type = Some ''agreement'', jurisdiction = None, file_description = None,
      similarity_tags = [''lease'', ''rent''],
      body_md = ''Tenant: {{tenant}}, rent: {{rent}}'',
      variables = [tenant_variable, rent_variable], t_created_at = ''2024-01-01''\<rparr>"

definition phrase_down :: "variable \<Rightarrow> template \<Rightarrow> string option" where
  "phrase_down v t = None"

definition ask_endpoint :: "string \<Rightarrow> string list \<Rightarrow> variable_question list http" where
  \<comment> \<open>A questions endpoint that answers as the specification's \<open>ask\<close> does for the lease template.\<close>
  "ask_endpoint templateId ks =
     (case ask phrase_down ks lease_template of Inr qs \<Rightarrow> Ok qs | Inl e \<Rightarrow> NotOk None)"

definition lease_server :: server where
  "lease_server =
     \<lparr>match_endpoint = (\<lambda>q. Ok partial_response),
      questions_endpoint = ask_endpoint,
      generate_endpoint = (\<lambda>t a q. Ok notice_draft),
      template_endpoint = (\<lambda>t. Ok lease_template)\<rparr>"

definition tenant_answer :: "string \<rightharpoonup> string" where
  "tenant_answer = [''tenant'' \<mapsto> ''Ann Lee'', ''rent'' \<mapsto> ''9000'']"

definition policy_body :: template where
  \<comment> \<open>A body with braces that belong to no placeholder, around one placeholder.\<close>
  "policy_body = lease_template\<lparr>body_md := ''{ {{policy_number}} }''\<rparr>"

definition nested_values :: "string \<rightharpoonup> string" where
  \<comment> \<open>The value of one key has the shape of a placeholder for another key that has a value.\<close>
  "nested_values = [''policy_number'' \<mapsto> ''{{incident_date}}'', ''incident_date'' \<mapsto> ''2024-03-01'']"

definition amount_variable :: variable where
  "amount_variable =
     \<lparr>key = ''amount'', label = ''Amount'', description = None, example = Some ''1.5'',
      required = True, dtype = ''amount''\<rparr>"

definition paren_variable :: variable where
  "paren_variable =
     \<lparr>key = ''clause'', label = ''Clause'', description = None, example = Some ''('',
      required = False, dtype = ''text''\<rparr>"

definition review_of :: "variable list \<Rightarrow> review_state" where
  "review_of vs = \<lparr>r_title = ''Notice'', r_docType = ''letter'', r_tags = ''insurance, notice'',
                   r_variables = vs\<rparr>"


definition policy_variable :: variable where
  "policy_variable =
     \<lparr>key = ''policy_number'', label = ''Policy Number'', description = None,
      example = Some ''ABC123'', required = True, dtype = ''identifier''\<rparr>"

definition date_variable :: variable where
  "date_variable =
     \<lparr>key = ''incident_date'', label = ''Incident Date'', description = None,
      example = Some ''2024-03-01'', required = True, dtype = ''date''\<rparr>"


definition notice_template :: template where
  "notice_template =
     \<lparr>t_id = 7, template_id = ''incident-notice'', title = ''Incident Notice to Insurer'',
      doc_type = Some ''legal_notice'', jurisdiction = None, file_description = None,
      similarity_tags = [''insurance'', ''notice'', ''india''],
      body_md = ''Policy {{policy_number}}, incident on {{incident_date}}'',
      variables = [policy_variable, date_variable], t_created_at = ''2024-01-01''\<rparr>"

definition notice_questions :: "string \<Rightarrow> string list \<Rightarrow> variable_question list http" where
  \<comment> \<open>A questions endpoint that answers as the specification's \<open>ask\<close> does for the notice
      template: one question for each key it is sent.\<close>
  "notice_questions templateId ks =
     (case ask phrase_down ks notice_template of Inr qs \<Rightarrow> Ok qs | Inl e \<Rightarrow> NotOk None)"

definition notice_server :: server where
  "notice_server =
     \<lparr>match_endpoint = (\<lambda>q. Ok partial_response),
      questions_endpoint = notice_questions,
      generate_endpoint = (\<lambda>t a q. Ok notice_draft),
      template_endpoint = (\<lambda>t. Ok notice_template)\<rparr>"

definition asked_chat :: chat_state where
  \<comment> \<open>The user sends the first message: the incident date is prefilled, the form asks for
      the policy number.\<close>
  "asked_chat = handleSend notice_server fresh_chat"

definition answered_chat :: chat_state where
  \<comment> \<open>The user submits the policy number.\<close>
  "answered_chat = handleAnswerSubmit notice_server policy_answer asked_chat"

definition reasked_chat :: chat_state where
  \<comment> \<open>The user then clicks "Use This Template" on the card of the match.\<close>
  "reasked_chat = handleUseTemplate notice_server ''incident-notice'' answered_chat"

section \<open>Properties\<close>

lemma slice_suffix: "suffix (slice s i) s"
  by (simp add: slice_def Let_def suffix_drop)

lemma endsWith_suffix: "endsWith s p = suffix p s"
proof
  assume "endsWith s p"
  then have "drop (length s - length p) s = p" by (simp add: endsWith_def)
  then show "suffix p s" by (metis suffix_drop)
next
  assume "suffix p s"
  then obtain q where "s = q @ p" by (auto simp: suffix_def)
  then show "endsWith s p" by (simp add: endsWith_def)
qed

subsection \<open>C10: uploads are gated by the file-name extension only\<close>

lemma extension_suffix: "suffix (extension f) (toLowerCase (file_name f))"
  by (simp add: extension_def slice_suffix)

lemma fetch_iff_extension:
  "list_ex is_fetch (uploadFile server f) = (extension f \<in> set allowedExtensions)"
  by (auto simp: uploadFile_def is_fetch_def split: sum.splits)

text \<open>
  C10. A file whose lower-cased name ends neither in \<open>.docx\<close> nor in \<open>.pdf\<close> is rejected:
  the only effect of \<open>uploadFile\<close> is the error callback, and no request is sent. Whether a
  request is sent depends on the file name alone: changing the file's MIME type changes
  neither the extension that is checked nor the decision, so the list \<open>allowedTypes\<close> plays
  no part.
\<close>

theorem uploadFile_extension_only:
  "(\<not> endsWith (toLowerCase (file_name f)) ''.docx'' \<and>
    \<not> endsWith (toLowerCase (file_name f)) ''.pdf''
    \<longrightarrow> uploadFile server f = [OnError ''Please upload a .docx or .pdf file''] \<and>
        \<not> list_ex is_fetch (uploadFile server f)) \<and>
   extension (f\<lparr>file_type := ty\<rparr>) = extension f \<and>
   list_ex is_fetch (uploadFile server' (f\<lparr>file_type := ty\<rparr>)) = list_ex is_fetch (uploadFile server f)"
proof -
  have gate: "extension f \<notin> set allowedExtensions"
    if "\<not> endsWith (toLowerCase (file_name f)) ''.docx''"
      and "\<not> endsWith (toLowerCase (file_name f)) ''.pdf''"
  proof
    assume "extension f \<in> set allowedExtensions"
    then have "extension f = ''.docx'' \<or> extension f = ''.pdf''"
      by (simp add: allowedExtensions_def)
    then have "suffix ''.docx'' (toLowerCase (file_name f)) \<or> suffix ''.pdf'' (toLowerCase (file_name f))"
      using extension_suffix [of f] by auto
    with that show False by (simp add: endsWith_suffix)
  qed
  have same: "extension (f\<lparr>file_type := ty\<rparr>) = extension f"
    by (simp add: extension_def)
  have "uploadFile server f = [OnError ''Please upload a .docx or .pdf file'']"
    if "extension f \<notin> set allowedExtensions"
    using that by (simp add: uploadFile_def)
  moreover have "\<not> list_ex is_fetch (uploadFile server f)" if "extension f \<notin> set allowedExtensions"
    using that by (simp add: fetch_iff_extension)
  ultimately show ?thesis
    using gate same by (auto simp: fetch_iff_extension)
qed

theorem uploadFile_extension_only_witness:
  "\<not> endsWith (toLowerCase (file_name notes_txt)) ''.docx'' \<and>
   \<not> endsWith (toLowerCase (file_name notes_txt)) ''.pdf'' \<and>
   file_type notes_txt = ''application/pdf'' \<and>
   uploadFile unreachable_upload notes_txt = [OnError ''Please upload a .docx or .pdf file''] \<and>
   \<not> list_ex is_fetch (uploadFile unreachable_upload notes_txt)"
proof -
  have a: "\<not> endsWith (toLowerCase (file_name notes_txt)) ''.docx''" by code_simp
  have b: "\<not> endsWith (toLowerCase (file_name notes_txt)) ''.pdf''" by code_simp
  have c: "file_type notes_txt = ''application/pdf''" by (simp add: notes_txt_def)
  from a b c uploadFile_extension_only [of notes_txt unreachable_upload]
  show ?thesis by blast
qed

subsection \<open>Helper facts about the chat handlers\<close>

lemma hgd_requests [simp]:
  "requests (handleGenerateDraft srv q tid a s) = requests s @ [DraftRequest tid a q]"
  by (simp add: handleGenerateDraft_def issue_def addMessage_def Let_def split: sum.splits)

lemma hgd_frame [simp]:
  "pendingQuestions (handleGenerateDraft srv q tid a s) = pendingQuestions s"
  "currentAnswers (handleGenerateDraft srv q tid a s) = currentAnswers s"
  "currentTemplate (handleGenerateDraft srv q tid a s) = currentTemplate s"
  "userQuery (handleGenerateDraft srv q tid a s) = userQuery s"
  "input (handleGenerateDraft srv q tid a s) = input s"
  "isLoading (handleGenerateDraft srv q tid a s) = isLoading s"
  by (simp_all add: handleGenerateDraft_def issue_def addMessage_def Let_def split: sum.splits)

lemma hgd_messages:
  "\<exists>m. messages (handleGenerateDraft srv q tid a s) = messages s @ [m] \<and>
       questions m = None \<and> templateMatch m = None"
  by (simp add: handleGenerateDraft_def issue_def addMessage_def msg_def Let_def split: sum.splits)

lemma trim_hd: "trim s \<noteq> [] \<Longrightarrow> \<not> is_ws (hd (trim s))"
proof -
  assume ne: "trim s \<noteq> []"
  let ?u = "dropWhile is_ws s"
  have "rev (trim s) = dropWhile is_ws (rev ?u)" by (simp add: trim_def)
  then obtain w where "rev ?u = w @ rev (trim s)"
    by (metis takeWhile_dropWhile_id)
  then have u: "?u = trim s @ rev w" by (metis rev_append rev_rev_ident)
  with ne have "hd (trim s) = hd ?u" by simp
  moreover from u ne have "?u \<noteq> []" by simp
  ultimately show ?thesis by (metis hd_dropWhile)
qed

lemma trim_last: "trim s \<noteq> [] \<Longrightarrow> \<not> is_ws (hd (rev (trim s)))"
  by (metis hd_dropWhile rev_is_Nil_conv rev_rev_ident trim_def)

lemma trim_idem: "trim (trim s) = trim s"
proof (cases "trim s = []")
  case True
  have "trim [] = []" by (simp add: trim_def)
  with True show ?thesis by simp
next
  case False
  have a: "dropWhile is_ws (trim s) = trim s"
    using trim_hd [OF False] False by (cases "trim s") auto
  have b: "dropWhile is_ws (rev (trim s)) = rev (trim s)"
    using trim_last [OF False] False by (cases "rev (trim s)") auto
  have "trim (trim s) = rev (dropWhile is_ws (rev (dropWhile is_ws (trim s))))"
    by (simp only: trim_def)
  then show ?thesis by (simp only: a b rev_rev_ident)
qed

lemma handleSend_blank: "trim (input s) = [] \<Longrightarrow> handleSend srv s = s"
  by (simp add: handleSend_def)

lemma handleSend_match_requests:
  "MatchRequest q \<in> set (requests (handleSend srv s)) \<Longrightarrow>
   MatchRequest q \<in> set (requests s) \<or> (q = trim (input s) \<and> trim (input s) \<noteq> [])"
  by (auto simp: handleSend_def after_match_def vars_command_def issue_def addMessage_def Let_def
      split: if_splits sum.splits option.splits)

lemmas chat_defs = handleSend_def after_match_def handleGenerateDraft_def vars_command_def
  issue_def addMessage_def msg_def matchTemplate_def getQuestions_def generateDraft_def
  getTemplate_def api_result_def or_else_def truthy_def startsWith_def

subsection \<open>C1: after a match, questions first or a draft at once\<close>

text \<open>
  C1, as the code has it. After a match with a best template, \<open>handleSend\<close> looks at the
  list of missing variables. If it is empty, the draft is requested at once with the
  prefilled values and no question is requested or shown. If it is not empty, questions
  are requested for exactly the missing keys before any draft; when the service answers
  with at least one question, the questions are stored and shown and no draft is
  requested; when it answers with an empty list, the draft is requested at once with the
  prefilled values.
\<close>

theorem handleSend_collects_or_drafts:
  assumes "trim (input s) \<noteq> []" and "\<not> isLoading s"
    and "\<not> (startsWith (trim (input s)) ''/vars'' \<and> truthy (currentTemplate s))"
    and "matchTemplate srv (trim (input s)) = Inr r" and "best_match r = Some b"
  shows
    "(missing_variables r = [] \<longrightarrow>
        requests (handleSend srv s) =
          requests s @ [MatchRequest (trim (input s)),
                        DraftRequest (m_template_id b) (prefilled_variables r) (userQuery s)] \<and>
        pendingQuestions (handleSend srv s) = pendingQuestions s \<and>
        concat (map form_fields (drop (length (messages s)) (messages (handleSend srv s)))) = []) \<and>
     (missing_variables r \<noteq> [] \<and>
      getQuestions srv (m_template_id b) (missing_variables r) = Inr qs \<and> qs \<noteq> [] \<longrightarrow>
        requests (handleSend srv s) =
          requests s @ [MatchRequest (trim (input s)),
                        QuestionsRequest (m_template_id b) (missing_variables r)] \<and>
        pendingQuestions (handleSend srv s) = Some qs \<and>
        questions (last (messages (handleSend srv s))) = Some qs \<and>
        form_fields (last (messages (handleSend srv s))) = map q_key qs \<and>
        currentTemplate (handleSend srv s) = Some (m_template_id b) \<and>
        currentAnswers (handleSend srv s) = prefilled_variables r) \<and>
     (missing_variables r \<noteq> [] \<and>
      getQuestions srv (m_template_id b) (missing_variables r) = Inr [] \<longrightarrow>
        requests (handleSend srv s) =
          requests s @ [MatchRequest (trim (input s)),
                        QuestionsRequest (m_template_id b) (missing_variables r),
                        DraftRequest (m_template_id b) (prefilled_variables r) (userQuery s)] \<and>
        pendingQuestions (handleSend srv s) = pendingQuestions s \<and>
        concat (map form_fields (drop (length (messages s)) (messages (handleSend srv s)))) = [])"
proof -
  let ?q = "trim (input s)"
  let ?s2 = "issue (MatchRequest ?q)
      ((addMessage (msg User (UserText ?q)) (s\<lparr>input := [], userQuery := ?q\<rparr>))\<lparr>isLoading := True\<rparr>)"
  have step: "handleSend srv s = (after_match srv (userQuery s) r b ?s2)\<lparr>isLoading := False\<rparr>"
    using assms by (auto simp: handleSend_def Let_def)
  show ?thesis
    unfolding step
    by (auto simp: after_match_def handleGenerateDraft_def issue_def addMessage_def msg_def
        form_fields_def Let_def split: sum.splits)
qed

lemma fresh_chat_query: "trim (input fresh_chat) = ''Draft a notice to insurer''"
  by (simp add: fresh_chat_def trim_def is_ws_def)

lemma fresh_chat_sends:
  "trim (input fresh_chat) \<noteq> []" "\<not> isLoading fresh_chat"
  "\<not> (startsWith (trim (input fresh_chat)) ''/vars'' \<and> truthy (currentTemplate fresh_chat))"
  by (simp_all add: fresh_chat_query) (simp_all add: fresh_chat_def truthy_def)

theorem handleSend_collects_or_drafts_witness:
  "requests (handleSend asking_server fresh_chat) =
     [MatchRequest ''Draft a notice to insurer'',
      QuestionsRequest ''incident-notice'' [''policy_number'']] \<and>
   pendingQuestions (handleSend asking_server fresh_chat) = Some [policy_question] \<and>
   form_fields (last (messages (handleSend asking_server fresh_chat))) = [''policy_number''] \<and>
   requests (handleSend prefilling_server fresh_chat) =
     [MatchRequest ''Draft a notice to insurer'',
      DraftRequest ''incident-notice'' (prefilled_variables full_response) []] \<and>
   pendingQuestions (handleSend prefilling_server fresh_chat) = None"
proof -
  have m1: "matchTemplate asking_server (trim (input fresh_chat)) = Inr partial_response"
    by (simp add: matchTemplate_def api_result_def asking_server_def)
  have b1: "best_match partial_response = Some insurer_match"
    by (simp add: partial_response_def)
  have q1: "missing_variables partial_response \<noteq> [] \<and>
      getQuestions asking_server (m_template_id insurer_match) (missing_variables partial_response)
        = Inr [policy_question] \<and> [policy_question] \<noteq> []"
    by (simp add: getQuestions_def api_result_def asking_server_def partial_response_def)
  have m2: "matchTemplate prefilling_server (trim (input fresh_chat)) = Inr full_response"
    by (simp add: matchTemplate_def api_result_def prefilling_server_def)
  have b2: "best_match full_response = Some insurer_match"
    by (simp add: full_response_def)
  have q2: "missing_variables full_response = []"
    by (simp add: full_response_def)
  have vals: "requests fresh_chat = []" "pendingQuestions fresh_chat = None" "userQuery fresh_chat = []"
    "m_template_id insurer_match = ''incident-notice''"
    "missing_variables partial_response = [''policy_number'']"
    "q_key policy_question = ''policy_number''"
    by (simp_all add: fresh_chat_def insurer_match_def partial_response_def policy_question_def)
  from handleSend_collects_or_drafts [OF fresh_chat_sends m1 b1, of "[policy_question]"]
       handleSend_collects_or_drafts [OF fresh_chat_sends m2 b2, of "[]"] q1 q2
  show ?thesis
    by (simp add: vals fresh_chat_query)
qed

text \<open>
  The claim as stated fails when the question service returns no question for a
  non-empty list of missing keys: the draft is requested in the same turn and nothing is
  asked.
\<close>

theorem handleSend_missing_without_questions:
  "missing_variables partial_response = [''policy_number''] \<and>
   requests (handleSend quiet_server fresh_chat) =
     [MatchRequest ''Draft a notice to insurer'',
      QuestionsRequest ''incident-notice'' [''policy_number''],
      DraftRequest ''incident-notice'' (prefilled_variables partial_response) []] \<and>
   pendingQuestions (handleSend quiet_server fresh_chat) = None \<and>
   concat (map form_fields (messages (handleSend quiet_server fresh_chat))) = []"
  by (simp add: chat_defs form_fields_def Let_def trim_def is_ws_def
      fresh_chat_def quiet_server_def partial_response_def insurer_match_def)

lemma collecting_chat_state:
  "requests collecting_chat =
     [MatchRequest ''Draft a notice to insurer'',
      QuestionsRequest ''incident-notice'' [''policy_number'']]"
  "currentAnswers collecting_chat = [''incident_date'' \<mapsto> ''2024-03-01'']"
  "currentTemplate collecting_chat = Some ''incident-notice''"
  "userQuery collecting_chat = ''Draft a notice to insurer''"
  "pendingQuestions collecting_chat = Some [policy_question]"
  by (simp_all add: collecting_chat_def chat_defs Let_def trim_def is_ws_def
      fresh_chat_def asking_server_def partial_response_def insurer_match_def)

lemma lease_questions:
  "getTemplate lease_server ''lease'' = Inr lease_template"
  "map key (variables lease_template) = [''tenant'', ''rent'']"
  by (simp_all add: getTemplate_def lease_server_def lease_template_def tenant_variable_def
      rent_variable_def)

subsection \<open>C5: a blank query is rejected and never sent\<close>

text \<open>
  C5. The matcher of the specification fails with \<open>InvalidInputError\<close> on every query that
  is empty after trimming. The chat interface does not send such a query: \<open>handleSend\<close>
  leaves the state as it is when the trimmed input is empty, and every match request it
  ever issues carries a query that is not empty after trimming.
\<close>

theorem blank_query_never_matched:
  "(trim q = [] \<longrightarrow> match classify lexical overlap q catalogue = Inl InvalidInputError) \<and>
   (trim (input s) = [] \<longrightarrow> handleSend srv s = s) \<and>
   (MatchRequest q' \<in> set (requests (handleSend srv s)) \<and> MatchRequest q' \<notin> set (requests s)
      \<longrightarrow> trim q' \<noteq> [])"
proof -
  have "trim q' \<noteq> []"
    if "MatchRequest q' \<in> set (requests (handleSend srv s))" and "MatchRequest q' \<notin> set (requests s)"
  proof -
    from handleSend_match_requests [OF that(1)] that(2)
    have "q' = trim (input s)" and "trim (input s) \<noteq> []" by auto
    then show ?thesis by (simp add: trim_idem)
  qed
  then show ?thesis
    by (auto simp: match_def handleSend_blank)
qed

theorem blank_query_never_matched_witness:
  "match port_down weak_scores no_overlap ''   '' [lease_template] = Inl InvalidInputError \<and>
   handleSend asking_server blank_chat = blank_chat \<and>
   requests (handleSend asking_server blank_chat) = [] \<and>
   trim ''Draft a notice to insurer'' \<noteq> []"
proof -
  have a: "trim ''   '' = []" by (simp add: trim_def is_ws_def)
  have b: "trim (input blank_chat) = []"
    by (simp add: blank_chat_def fresh_chat_def trim_def is_ws_def)
  have c: "MatchRequest ''Draft a notice to insurer'' \<in> set (requests (handleSend asking_server fresh_chat)) \<and>
           MatchRequest ''Draft a notice to insurer'' \<notin> set (requests fresh_chat)"
    using collecting_chat_state(1) by (simp add: collecting_chat_def fresh_chat_def)
  have d: "requests blank_chat = []" by (simp add: blank_chat_def fresh_chat_def)
  from blank_query_never_matched [of "''   ''" port_down weak_scores no_overlap "[lease_template]"
      blank_chat asking_server]
    blank_query_never_matched [of q classify lexical overlap catalogue fresh_chat asking_server
      "''Draft a notice to insurer''" for q classify lexical overlap catalogue]
    a b c d
  show ?thesis by simp
qed

subsection \<open>C2: submitted answers are merged; choosing a template asks again\<close>

lemma submit_new_requests:
  "\<exists>new. requests (handleAnswerSubmit srv answers s) = requests s @ new \<and>
         list_all (\<lambda>r. \<not> is_questions_request r) new"
  by (simp add: handleAnswerSubmit_def addMessage_def is_questions_request_def Let_def
      split: option.splits)

lemma submit_new_messages:
  "\<exists>new. messages (handleAnswerSubmit srv answers s) = messages s @ new \<and>
         concat (map form_fields new) = []"
  by (simp add: handleAnswerSubmit_def handleGenerateDraft_def issue_def addMessage_def msg_def
      form_fields_def Let_def split: option.splits sum.splits)

lemma submit_answers: "currentAnswers (handleAnswerSubmit srv answers s) = currentAnswers s ++ answers"
  by (simp add: handleAnswerSubmit_def addMessage_def Let_def split: option.splits)

lemma submit_batches_Cons:
  "submit_batches srv (b # bs) s = submit_batches srv bs (handleAnswerSubmit srv b s)"
  by (simp add: submit_batches_def)

lemma submit_batches_asks_nothing:
  "\<exists>new_requests new_messages.
     requests (submit_batches srv batches s) = requests s @ new_requests \<and>
     list_all (\<lambda>r. \<not> is_questions_request r) new_requests \<and>
     messages (submit_batches srv batches s) = messages s @ new_messages \<and>
     concat (map form_fields new_messages) = []"
proof (induction batches arbitrary: s)
  case Nil
  then show ?case by (simp add: submit_batches_def)
next
  case (Cons b bs)
  from submit_new_requests [of srv b s] submit_new_messages [of srv b s]
  obtain r1 m1 where
    one: "requests (handleAnswerSubmit srv b s) = requests s @ r1"
      "list_all (\<lambda>r. \<not> is_questions_request r) r1"
      "messages (handleAnswerSubmit srv b s) = messages s @ m1"
      "concat (map form_fields m1) = []"
    by blast
  from Cons.IH [of "handleAnswerSubmit srv b s"]
  obtain r2 m2 where
    rest: "requests (submit_batches srv (b # bs) s) = requests (handleAnswerSubmit srv b s) @ r2"
      "list_all (\<lambda>r. \<not> is_questions_request r) r2"
      "messages (submit_batches srv (b # bs) s) = messages (handleAnswerSubmit srv b s) @ m2"
      "concat (map form_fields m2) = []"
    unfolding submit_batches_Cons by blast
  show ?case
  proof (intro exI conjI)
    show "requests (submit_batches srv (b # bs) s) = requests s @ (r1 @ r2)"
      using one rest by simp
    show "list_all (\<lambda>r. \<not> is_questions_request r) (r1 @ r2)"
      using one rest by simp
    show "messages (submit_batches srv (b # bs) s) = messages s @ (m1 @ m2)"
      using one rest by simp
    show "concat (map form_fields (m1 @ m2)) = []"
      using one rest by simp
  qed
qed

lemma submit_batches_keeps:
  "currentAnswers s k = Some v \<Longrightarrow> currentAnswers (submit_batches srv batches s) k \<noteq> None"
proof (induction batches arbitrary: s v)
  case Nil
  then show ?case by (simp add: submit_batches_def)
next
  case (Cons b bs)
  from Cons.prems obtain v' where "currentAnswers (handleAnswerSubmit srv b s) k = Some v'"
    by (cases "b k") (auto simp: submit_answers map_add_def)
  from Cons.IH [OF this] show ?case by (simp add: submit_batches_Cons)
qed

lemma notice_replies:
  "matchTemplate notice_server q = Inr partial_response"
  "generateDraft notice_server t a q = Inr notice_draft"
  "getTemplate notice_server ''incident-notice'' = Inr notice_template"
  "map key (variables notice_template) = [''policy_number'', ''incident_date'']"
  "getQuestions notice_server ''incident-notice'' [''policy_number''] =
     Inr [ask_one phrase_down notice_template policy_variable]"
  "getQuestions notice_server ''incident-notice'' [''policy_number'', ''incident_date''] =
     Inr [ask_one phrase_down notice_template policy_variable,
          ask_one phrase_down notice_template date_variable]"
  by (simp_all add: matchTemplate_def generateDraft_def getTemplate_def getQuestions_def
      api_result_def notice_server_def notice_questions_def notice_template_def
      policy_variable_def date_variable_def)

lemma asked_chat_state:
  "requests asked_chat =
     [MatchRequest ''Draft a notice to insurer'',
      QuestionsRequest ''incident-notice'' [''policy_number'']]"
  "currentAnswers asked_chat = [''incident_date'' \<mapsto> ''2024-03-01'']"
  "currentTemplate asked_chat = Some ''incident-notice''"
  "userQuery asked_chat = ''Draft a notice to insurer''"
  "pendingQuestions asked_chat = Some [ask_one phrase_down notice_template policy_variable]"
  "concat (map template_choices (messages asked_chat)) = [''incident-notice'']"
  "concat (map form_fields (messages asked_chat)) = [''policy_number'']"
  by (simp_all add: asked_chat_def handleSend_def after_match_def issue_def addMessage_def msg_def
      startsWith_def truthy_def notice_replies Let_def
      trim_def is_ws_def fresh_chat_def partial_response_def insurer_match_def
      template_choices_def form_fields_def ask_one_def policy_variable_def)

lemma answered_chat_state:
  "requests answered_chat =
     requests asked_chat @
     [DraftRequest ''incident-notice'' (currentAnswers asked_chat ++ policy_answer)
        ''Draft a notice to insurer'']"
  "currentAnswers answered_chat = currentAnswers asked_chat ++ policy_answer"
  "pendingQuestions answered_chat = None"
  "concat (map template_choices (messages answered_chat)) = [''incident-notice'']"
  "concat (map form_fields (messages answered_chat)) = [''policy_number'']"
  by (simp_all add: answered_chat_def handleAnswerSubmit_def handleGenerateDraft_def issue_def
      addMessage_def msg_def notice_replies Let_def asked_chat_state template_choices_def
      form_fields_def)

lemma submit_batches_messages:
  "take (length (messages s)) (messages (submit_batches srv batches s)) = messages s"
  using submit_batches_asks_nothing [of srv batches s] by auto

lemma handleUseTemplate_asks_all:
  assumes "getTemplate srv templateId = Inr t"
  shows "requests (handleUseTemplate srv templateId s) =
           requests s @ [TemplateRequest templateId, QuestionsRequest templateId (map key (variables t))]"
  using assms
  by (simp add: handleUseTemplate_def issue_def addMessage_def Let_def split: sum.splits)

lemma handleUseTemplate_shows:
  assumes "getTemplate srv templateId = Inr t"
    and "getQuestions srv templateId (map key (variables t)) = Inr qs" and "qs \<noteq> []"
  shows "pendingQuestions (handleUseTemplate srv templateId s) = Some qs"
    and "messages (handleUseTemplate srv templateId s) =
           messages s @ [(msg Assistant GreatChoice)\<lparr>questions := Some qs\<rparr>]"
    and "form_fields (last (messages (handleUseTemplate srv templateId s))) = map q_key qs"
  using assms
  by (simp_all add: handleUseTemplate_def issue_def addMessage_def Let_def form_fields_def)

text \<open>
  C2, as the code has it. \<open>handleAnswerSubmit\<close> stores, and sends with the draft request,
  the accumulated answers overridden by the new batch. A key answered before keeps a value,
  and keeps its old value when the batch omits it. Handling a batch asks nothing: the
  pending questions are cleared, and over any sequence of submitted batches a key answered
  before still has a value, no question request is issued and no form is shown. The earlier
  messages stay on the screen, with their "Use This Template" buttons; choosing a template
  after the batches requests questions for every variable key of that template, whatever
  the accumulated answers hold, and shows a form with the questions that come back.
\<close>

theorem handleAnswerSubmit_merges:
  "currentAnswers (handleAnswerSubmit srv answers s) = currentAnswers s ++ answers \<and>
   (currentAnswers s k = Some v \<longrightarrow> currentAnswers (handleAnswerSubmit srv answers s) k \<noteq> None) \<and>
   (currentAnswers s k = Some v \<and> answers k = None
      \<longrightarrow> currentAnswers (handleAnswerSubmit srv answers s) k = Some v) \<and>
   (currentTemplate s = Some templateId \<and> templateId \<noteq> []
      \<longrightarrow> requests (handleAnswerSubmit srv answers s) =
            requests s @ [DraftRequest templateId (currentAnswers s ++ answers) (userQuery s)]) \<and>
   pendingQuestions (handleAnswerSubmit srv answers s) = None \<and>
   (currentAnswers s k = Some v \<longrightarrow> currentAnswers (submit_batches srv batches s) k \<noteq> None) \<and>
   list_all (\<lambda>r. \<not> is_questions_request r)
     (drop (length (requests s)) (requests (submit_batches srv batches s))) \<and>
   concat (map form_fields (drop (length (messages s)) (messages (submit_batches srv batches s)))) = [] \<and>
   take (length (messages s)) (messages (submit_batches srv batches s)) = messages s \<and>
   (getTemplate srv' chosen = Inr t
      \<longrightarrow> requests (handleUseTemplate srv' chosen (submit_batches srv batches s)) =
            requests (submit_batches srv batches s) @
            [TemplateRequest chosen, QuestionsRequest chosen (map key (variables t))]) \<and>
   (getTemplate srv' chosen = Inr t \<and>
    getQuestions srv' chosen (map key (variables t)) = Inr qs \<and> qs \<noteq> []
      \<longrightarrow> pendingQuestions (handleUseTemplate srv' chosen (submit_batches srv batches s)) = Some qs \<and>
          messages (handleUseTemplate srv' chosen (submit_batches srv batches s)) =
            messages (submit_batches srv batches s) @
            [(msg Assistant GreatChoice)\<lparr>questions := Some qs\<rparr>] \<and>
          form_fields (last (messages (handleUseTemplate srv' chosen (submit_batches srv batches s))))
            = map q_key qs)"
proof -
  have merged: "currentAnswers (handleAnswerSubmit srv answers s) = currentAnswers s ++ answers"
    by (rule submit_answers)
  have kept: "(currentAnswers s ++ answers) k \<noteq> None" if "currentAnswers s k = Some v"
    using that by (simp add: map_add_def split: option.splits)
  have same: "(currentAnswers s ++ answers) k = Some v"
    if "currentAnswers s k = Some v" and "answers k = None"
    using that by (simp add: map_add_def)
  have sent: "requests (handleAnswerSubmit srv answers s) =
      requests s @ [DraftRequest templateId (currentAnswers s ++ answers) (userQuery s)]"
    if "currentTemplate s = Some templateId" and "templateId \<noteq> []"
    using that by (simp add: handleAnswerSubmit_def addMessage_def Let_def)
  have pending: "pendingQuestions (handleAnswerSubmit srv answers s) = None"
    by (simp add: handleAnswerSubmit_def addMessage_def Let_def split: option.splits)
  from submit_batches_asks_nothing [of srv batches s]
  have quiet: "list_all (\<lambda>r. \<not> is_questions_request r)
        (drop (length (requests s)) (requests (submit_batches srv batches s)))"
      "concat (map form_fields
        (drop (length (messages s)) (messages (submit_batches srv batches s)))) = []"
    by auto
  note again = handleUseTemplate_asks_all [of srv' chosen t "submit_batches srv batches s"]
    handleUseTemplate_shows [of srv' chosen t qs "submit_batches srv batches s"]
  from merged kept same sent pending quiet submit_batches_keeps [of s k v srv batches]
    submit_batches_messages [of s srv batches] again
  show ?thesis by simp
qed

theorem handleAnswerSubmit_merges_witness:
  "currentAnswers asked_chat ''incident_date'' = Some ''2024-03-01'' \<and>
   policy_answer ''incident_date'' = None \<and>
   currentAnswers (handleAnswerSubmit notice_server policy_answer asked_chat) ''incident_date''
     = Some ''2024-03-01'' \<and>
   currentAnswers (handleAnswerSubmit notice_server policy_answer asked_chat) ''policy_number''
     = Some ''ABC123'' \<and>
   requests (handleAnswerSubmit notice_server policy_answer asked_chat) =
     [MatchRequest ''Draft a notice to insurer'',
      QuestionsRequest ''incident-notice'' [''policy_number''],
      DraftRequest ''incident-notice'' (currentAnswers asked_chat ++ policy_answer)
        ''Draft a notice to insurer''] \<and>
   pendingQuestions (handleAnswerSubmit notice_server policy_answer asked_chat) = None \<and>
   currentAnswers (submit_batches notice_server [policy_answer] asked_chat) ''incident_date'' \<noteq> None \<and>
   getTemplate notice_server ''incident-notice'' = Inr notice_template \<and>
   requests (handleUseTemplate notice_server ''incident-notice''
              (submit_batches notice_server [policy_answer] asked_chat)) =
     requests (submit_batches notice_server [policy_answer] asked_chat) @
     [TemplateRequest ''incident-notice'',
      QuestionsRequest ''incident-notice'' [''policy_number'', ''incident_date'']] \<and>
   form_fields (last (messages (handleUseTemplate notice_server ''incident-notice''
                  (submit_batches notice_server [policy_answer] asked_chat)))) =
     [''policy_number'', ''incident_date'']"
proof -
  have a: "currentAnswers asked_chat ''incident_date'' = Some ''2024-03-01''"
    by (simp add: asked_chat_state)
  have b: "policy_answer ''incident_date'' = None" by (simp add: policy_answer_def)
  have c: "currentTemplate asked_chat = Some ''incident-notice'' \<and> ''incident-notice'' \<noteq> []"
    by (simp add: asked_chat_state)
  have d: "(currentAnswers asked_chat ++ policy_answer) ''policy_number'' = Some ''ABC123''"
    by (simp add: policy_answer_def)
  have e: "getTemplate notice_server ''incident-notice'' = Inr notice_template \<and>
      getQuestions notice_server ''incident-notice'' (map key (variables notice_template)) =
        Inr [ask_one phrase_down notice_template policy_variable,
             ask_one phrase_down notice_template date_variable] \<and>
      [ask_one phrase_down notice_template policy_variable,
       ask_one phrase_down notice_template date_variable] \<noteq> []"
    by (simp add: notice_replies)
  have f: "map q_key [ask_one phrase_down notice_template policy_variable,
       ask_one phrase_down notice_template date_variable] = [''policy_number'', ''incident_date'']"
    by (simp add: ask_one_def policy_variable_def date_variable_def)
  from handleAnswerSubmit_merges [where srv = notice_server and answers = policy_answer
      and s = asked_chat and k = "''incident_date''" and v = "''2024-03-01''"
      and templateId = "''incident-notice''" and batches = "[policy_answer]"
      and srv' = notice_server and chosen = "''incident-notice''" and t = notice_template
      and qs = "[ask_one phrase_down notice_template policy_variable,
                 ask_one phrase_down notice_template date_variable]"] a b c d e f
  show ?thesis by (simp add: asked_chat_state map_add_def notice_replies form_fields_def msg_def)
qed

text \<open>
  The claim as stated fails: after the first message and the submitted policy number both
  keys have a value, the card of the match still offers its template, and choosing it asks
  for both keys again.
\<close>

theorem answered_keys_asked_again:
  "concat (map template_choices (messages answered_chat)) = [''incident-notice''] \<and>
   pendingQuestions answered_chat = None \<and>
   currentAnswers answered_chat ''policy_number'' = Some ''ABC123'' \<and>
   currentAnswers answered_chat ''incident_date'' = Some ''2024-03-01'' \<and>
   requests reasked_chat =
     requests answered_chat @
     [TemplateRequest ''incident-notice'',
      QuestionsRequest ''incident-notice'' [''policy_number'', ''incident_date'']] \<and>
   map_option (map q_key) (pendingQuestions reasked_chat) =
     Some [''policy_number'', ''incident_date''] \<and>
   form_fields (last (messages reasked_chat)) = [''policy_number'', ''incident_date'']"
  by (simp add: reasked_chat_def handleUseTemplate_def issue_def addMessage_def msg_def
      notice_replies Let_def answered_chat_state asked_chat_state policy_answer_def
      form_fields_def ask_one_def policy_variable_def date_variable_def)

subsection \<open>C9: choosing a template keeps the accumulated answers\<close>

text \<open>
  C9. \<open>handleUseTemplate\<close> sets the current template (and, when questions come back, the
  pending questions, shown in a new message); the accumulated answers, the stored query,
  the input and the loading flag are unchanged and earlier messages are kept. The answers
  submitted next are therefore merged with the old answers, whatever template those were
  collected for, and the merged map is sent with the draft request for the chosen
  template.
\<close>

theorem handleUseTemplate_keeps_answers:
  "currentAnswers (handleUseTemplate srv templateId s) = currentAnswers s \<and>
   currentTemplate (handleUseTemplate srv templateId s) = Some templateId \<and>
   userQuery (handleUseTemplate srv templateId s) = userQuery s \<and>
   input (handleUseTemplate srv templateId s) = input s \<and>
   isLoading (handleUseTemplate srv templateId s) = isLoading s \<and>
   take (length (messages s)) (messages (handleUseTemplate srv templateId s)) = messages s \<and>
   (templateId \<noteq> [] \<longrightarrow>
      requests (handleAnswerSubmit srv' batch (handleUseTemplate srv templateId s)) =
        requests (handleUseTemplate srv templateId s) @
        [DraftRequest templateId (currentAnswers s ++ batch) (userQuery s)]) \<and>
   (currentAnswers s k = Some v \<and> batch k = None \<longrightarrow> (currentAnswers s ++ batch) k = Some v)"
proof -
  let ?s' = "handleUseTemplate srv templateId s"
  have frame: "currentAnswers ?s' = currentAnswers s" "currentTemplate ?s' = Some templateId"
    "userQuery ?s' = userQuery s" "input ?s' = input s" "isLoading ?s' = isLoading s"
    by (simp_all add: handleUseTemplate_def issue_def addMessage_def Let_def split: sum.splits)
  have msgs: "take (length (messages s)) (messages ?s') = messages s"
    by (simp add: handleUseTemplate_def issue_def addMessage_def Let_def split: sum.splits)
  have later: "requests (handleAnswerSubmit srv' batch ?s') =
      requests ?s' @ [DraftRequest templateId (currentAnswers s ++ batch) (userQuery s)]"
    if "templateId \<noteq> []"
    using that by (simp add: handleAnswerSubmit_def addMessage_def Let_def frame)
  have kept: "(currentAnswers s ++ batch) k = Some v" if "currentAnswers s k = Some v" "batch k = None"
    using that by (simp add: map_add_def)
  from frame msgs later kept show ?thesis by simp
qed

theorem handleUseTemplate_keeps_answers_witness:
  "currentAnswers collecting_chat ''incident_date'' = Some ''2024-03-01'' \<and>
   tenant_answer ''incident_date'' = None \<and>
   currentAnswers (handleUseTemplate lease_server ''lease'' collecting_chat) ''incident_date''
     = Some ''2024-03-01'' \<and>
   currentTemplate (handleUseTemplate lease_server ''lease'' collecting_chat) = Some ''lease'' \<and>
   requests (handleAnswerSubmit lease_server tenant_answer
              (handleUseTemplate lease_server ''lease'' collecting_chat)) =
     requests (handleUseTemplate lease_server ''lease'' collecting_chat) @
     [DraftRequest ''lease'' (currentAnswers collecting_chat ++ tenant_answer)
        ''Draft a notice to insurer''] \<and>
   (currentAnswers collecting_chat ++ tenant_answer) ''incident_date'' = Some ''2024-03-01''"
proof -
  have a: "currentAnswers collecting_chat ''incident_date'' = Some ''2024-03-01''"
    by (simp add: collecting_chat_state)
  have b: "tenant_answer ''incident_date'' = None" by (simp add: tenant_answer_def)
  have c: "''lease'' \<noteq> []" by simp
  from handleUseTemplate_keeps_answers [of lease_server "''lease''" collecting_chat lease_server
      tenant_answer "''incident_date''" "''2024-03-01''"] a b c
  show ?thesis by (simp add: collecting_chat_state map_add_def)
qed

lemma mset_insert_ranked: "mset (insert_ranked overlap a bs) = add_mset a (mset bs)"
  by (induction bs) auto

lemma mset_rank: "mset (rank overlap cs) = mset cs"
  by (induction cs) (simp_all add: rank_def mset_insert_ranked)

lemma select_best_none:
  assumes "list_all (\<lambda>c. score c < threshold) ranked"
  shows "select_best ranked = \<lparr>best = None, alts = ranked\<rparr>"
  using assms by (cases ranked) (auto simp: select_best_def)

lemma rank_all_below:
  assumes "list_all (\<lambda>c. score c < threshold) cs"
  shows "list_all (\<lambda>c. score c < threshold) (rank overlap cs)"
proof -
  have "set (rank overlap cs) = set cs"
    by (metis mset_rank set_mset_mset)
  with assms show ?thesis by (simp add: list_all_iff)
qed

subsection \<open>C3: without a best match the chat offers no alternatives\<close>

text \<open>
  C3, as the code has it. When no candidate's score reaches the threshold, the matcher of
  the specification returns no best match and every candidate among the alternatives.
  The chat interface does not present them: on a response without a best match,
  \<open>handleSend\<close> adds the user's message and a "no matching template" message that offers
  no template to choose, issues no request beyond the match request, and leaves the
  current template and the pending questions as they were.
\<close>

theorem no_best_match_offers_nothing:
  "(trim q \<noteq> [] \<and> list_all (\<lambda>c. score c < threshold) (score_candidates classify lexical q catalogue)
      \<longrightarrow> (\<exists>mr. match classify lexical overlap q catalogue = Inr mr \<and> best mr = None \<and>
               mset (alts mr) = mset (score_candidates classify lexical q catalogue))) \<and>
   (trim (input s) \<noteq> [] \<and> \<not> isLoading s \<and>
    \<not> (startsWith (trim (input s)) ''/vars'' \<and> truthy (currentTemplate s)) \<and>
    matchTemplate srv (trim (input s)) = Inr r \<and> best_match r = None
      \<longrightarrow> messages (handleSend srv s) =
            messages s @ [msg User (UserText (trim (input s))), msg Assistant NoMatch] \<and>
          concat (map template_choices (drop (length (messages s)) (messages (handleSend srv s)))) = [] \<and>
          requests (handleSend srv s) = requests s @ [MatchRequest (trim (input s))] \<and>
          currentTemplate (handleSend srv s) = currentTemplate s \<and>
          pendingQuestions (handleSend srv s) = pendingQuestions s)"
proof -
  let ?cs = "score_candidates classify lexical q catalogue"
  have engine: "\<exists>mr. match classify lexical overlap q catalogue = Inr mr \<and> best mr = None \<and>
      mset (alts mr) = mset ?cs"
    if "trim q \<noteq> []" and low: "list_all (\<lambda>c. score c < threshold) ?cs"
  proof -
    have "select_best (rank (overlap q) ?cs) = \<lparr>best = None, alts = rank (overlap q) ?cs\<rparr>"
      by (rule select_best_none [OF rank_all_below [OF low]])
    with that(1) show ?thesis by (simp add: match_def mset_rank)
  qed
  have chat: "messages (handleSend srv s) =
        messages s @ [msg User (UserText (trim (input s))), msg Assistant NoMatch] \<and>
      concat (map template_choices (drop (length (messages s)) (messages (handleSend srv s)))) = [] \<and>
      requests (handleSend srv s) = requests s @ [MatchRequest (trim (input s))] \<and>
      currentTemplate (handleSend srv s) = currentTemplate s \<and>
      pendingQuestions (handleSend srv s) = pendingQuestions s"
    if "trim (input s) \<noteq> []" "\<not> isLoading s"
      "\<not> (startsWith (trim (input s)) ''/vars'' \<and> truthy (currentTemplate s))"
      "matchTemplate srv (trim (input s)) = Inr r" "best_match r = None"
    using that
    by (auto simp: handleSend_def issue_def addMessage_def msg_def template_choices_def Let_def)
  from engine chat show ?thesis by blast
qed

theorem no_best_match_offers_nothing_witness:
  "(\<exists>mr. match port_down weak_scores no_overlap ''Draft a will'' [lease_template] = Inr mr \<and>
         best mr = None \<and> mset (alts mr) = mset [lease_match, nda_match]) \<and>
   messages (handleSend undecided_server fresh_chat) =
     [msg User (UserText ''Draft a notice to insurer''), msg Assistant NoMatch] \<and>
   requests (handleSend undecided_server fresh_chat) = [MatchRequest ''Draft a notice to insurer'']"
proof -
  have cs: "score_candidates port_down weak_scores ''Draft a will'' [lease_template] = [lease_match, nda_match]"
    by (simp add: score_candidates_def port_down_def weak_scores_def)
  have a: "trim ''Draft a will'' \<noteq> []" by (simp add: trim_def is_ws_def)
  have b: "list_all (\<lambda>c. score c < threshold)
      (score_candidates port_down weak_scores ''Draft a will'' [lease_template])"
    by (simp add: cs lease_match_def nda_match_def threshold_def)
  have c: "matchTemplate undecided_server (trim (input fresh_chat)) = Inr undecided_response \<and>
      best_match undecided_response = None"
    by (simp add: matchTemplate_def api_result_def undecided_server_def undecided_response_def)
  have d: "messages fresh_chat = []" "requests fresh_chat = []" by (simp_all add: fresh_chat_def)
  from no_best_match_offers_nothing [of "''Draft a will''" port_down weak_scores "[lease_template]"
      no_overlap fresh_chat undecided_server undecided_response] a b c fresh_chat_sends
  show ?thesis by (simp add: cs d fresh_chat_query)
qed

text \<open>
  The claim as stated fails on a response that has alternatives but no best match: no
  message of the conversation offers a template.
\<close>

theorem alternatives_not_offered_without_best:
  "best_match undecided_response = None \<and>
   alternatives undecided_response = [nda_match, lease_match] \<and>
   matchTemplate undecided_server ''Draft a notice to insurer'' = Inr undecided_response \<and>
   concat (map template_choices (messages (handleSend undecided_server fresh_chat))) = []"
  by (simp add: chat_defs template_choices_def Let_def trim_def is_ws_def
      fresh_chat_def undecided_server_def undecided_response_def)

subsection \<open>C6: questions keep the order of the keys\<close>

lemma ask_keys: "ask phraseQuestion ks t = Inr qs \<Longrightarrow> map q_key qs = ks"
proof (induction ks arbitrary: qs)
  case Nil
  then show ?case by simp
next
  case (Cons k ks)
  from Cons.prems obtain v qs' where
    found: "find (\<lambda>v. key v = k) (variables t) = Some v" and
    rest: "ask phraseQuestion ks t = Inr qs'" and
    qs: "qs = ask_one phraseQuestion t v # qs'"
    by (auto split: option.splits sum.splits)
  from found have "key v = k" by (auto simp: find_Some_iff)
  with Cons.IH [OF rest] qs show ?case by (simp add: ask_one_def)
qed

lemma ask_total:
  "list_all (\<lambda>k. k \<in> set (map key (variables t))) ks \<Longrightarrow> \<exists>qs. ask phraseQuestion ks t = Inr qs"
proof (induction ks)
  case Nil
  then show ?case by simp
next
  case (Cons k ks)
  then obtain qs where "ask phraseQuestion ks t = Inr qs" by auto
  moreover from Cons.prems have "find (\<lambda>v. key v = k) (variables t) \<noteq> None"
    by (auto simp: find_None_iff)
  ultimately show ?case by auto
qed

lemma declared_keys: "list_all (\<lambda>k. k \<in> set (map key vs)) (map key vs)"
  by (simp add: list_all_iff)

text \<open>
  C6. The question generator of the specification returns one question per key, in the
  order of the keys given, and it does return when every key is defined by the template.
  When a template is chosen directly, \<open>handleUseTemplate\<close> requests questions for the
  template's keys in their declared order and the form shows the questions in the order
  received; with a question service that answers as the generator does, the form fields
  appear in the template's declared variable order.
\<close>

theorem questions_keep_key_order:
  "(ask phraseQuestion ks t = Inr qs \<longrightarrow> map q_key qs = ks) \<and>
   (list_all (\<lambda>k. k \<in> set (map key (variables t))) ks
      \<longrightarrow> (\<exists>qs'. ask phraseQuestion ks t = Inr qs' \<and> map q_key qs' = ks)) \<and>
   (getTemplate srv templateId = Inr t' \<and>
    getQuestions srv templateId (map key (variables t')) = Inr shown \<and> shown \<noteq> []
      \<longrightarrow> requests (handleUseTemplate srv templateId s) =
            requests s @ [TemplateRequest templateId,
                          QuestionsRequest templateId (map key (variables t'))] \<and>
          pendingQuestions (handleUseTemplate srv templateId s) = Some shown \<and>
          form_fields (last (messages (handleUseTemplate srv templateId s))) = map q_key shown) \<and>
   (getTemplate srv templateId = Inr t' \<and> variables t' \<noteq> [] \<and>
    getQuestions srv templateId (map key (variables t')) =
      (case ask phraseQuestion (map key (variables t')) t' of
         Inr qs' \<Rightarrow> Inr qs'
       | Inl e \<Rightarrow> Inl (Error ''Failed to get questions''))
      \<longrightarrow> form_fields (last (messages (handleUseTemplate srv templateId s))) =
            map key (variables t'))"
proof -
  have total: "\<exists>qs'. ask phraseQuestion ks t = Inr qs' \<and> map q_key qs' = ks"
    if "list_all (\<lambda>k. k \<in> set (map key (variables t))) ks" for ks t
    using ask_total [OF that] ask_keys by blast
  have shows_in_order: "requests (handleUseTemplate srv templateId s) =
        requests s @ [TemplateRequest templateId,
                      QuestionsRequest templateId (map key (variables t'))] \<and>
      pendingQuestions (handleUseTemplate srv templateId s) = Some shown \<and>
      form_fields (last (messages (handleUseTemplate srv templateId s))) = map q_key shown"
    if "getTemplate srv templateId = Inr t'"
      "getQuestions srv templateId (map key (variables t')) = Inr shown" "shown \<noteq> []" for shown
    using that
    by (simp add: handleUseTemplate_def issue_def addMessage_def msg_def form_fields_def Let_def)
  have declared: "form_fields (last (messages (handleUseTemplate srv templateId s))) =
      map key (variables t')"
    if tmpl: "getTemplate srv templateId = Inr t'" and ne: "variables t' \<noteq> []"
      and served: "getQuestions srv templateId (map key (variables t')) =
        (case ask phraseQuestion (map key (variables t')) t' of
           Inr qs' \<Rightarrow> Inr qs'
         | Inl e \<Rightarrow> Inl (Error ''Failed to get questions''))"
  proof -
    from total [OF declared_keys] obtain qs' where
      asked: "ask phraseQuestion (map key (variables t')) t' = Inr qs'" and
      keys: "map q_key qs' = map key (variables t')"
      by blast
    from keys ne have "qs' \<noteq> []" by auto
    moreover from served asked
    have "getQuestions srv templateId (map key (variables t')) = Inr qs'" by simp
    ultimately show ?thesis
      using shows_in_order [OF tmpl] keys by simp
  qed
  from total shows_in_order declared show ?thesis
    by (auto dest: ask_keys)
qed


theorem questions_keep_key_order_witness:
  "(\<exists>qs. ask phrase_down [''rent'', ''tenant''] lease_template = Inr qs \<and>
         map q_key qs = [''rent'', ''tenant'']) \<and>
   variables lease_template = [tenant_variable, rent_variable] \<and>
   form_fields (last (messages (handleUseTemplate lease_server ''lease'' collecting_chat))) =
     [''tenant'', ''rent'']"
proof -
  have keys: "map key (variables lease_template) = [''tenant'', ''rent'']"
    by (rule lease_questions)
  have a: "list_all (\<lambda>k. k \<in> set (map key (variables lease_template))) [''rent'', ''tenant'']"
    by (simp add: keys)
  have b: "getTemplate lease_server ''lease'' = Inr lease_template"
    by (rule lease_questions)
  have c: "variables lease_template \<noteq> []"
    by (simp add: lease_template_def)
  have d: "getQuestions lease_server ''lease'' (map key (variables lease_template)) =
      (case ask phrase_down (map key (variables lease_template)) lease_template of
         Inr qs' \<Rightarrow> Inr qs'
       | Inl e \<Rightarrow> Inl (Error ''Failed to get questions''))"
    by (simp add: getQuestions_def api_result_def or_else_def lease_server_def ask_endpoint_def
        split: sum.splits)
  note order = questions_keep_key_order [of phrase_down "[''rent'', ''tenant'']" lease_template _
      lease_server "''lease''" lease_template _ collecting_chat]
  from order a have first: "\<exists>qs. ask phrase_down [''rent'', ''tenant''] lease_template = Inr qs \<and>
      map q_key qs = [''rent'', ''tenant'']"
    by blast
  from order b c d
  have "form_fields (last (messages (handleUseTemplate lease_server ''lease'' collecting_chat))) =
      map key (variables lease_template)"
    by blast
  with first keys show ?thesis by (simp add: lease_template_def)
qed

subsection \<open>Replacement text without dollar signs\<close>

lemma expand_plain: "CHR ''$'' \<notin> set r \<Longrightarrow> expand r matched pre post = r"
  by (induction r matched pre post rule: expand.induct) auto

lemma placeholder_plain: "CHR ''$'' \<notin> set k \<Longrightarrow> expand (placeholder k) matched pre post = placeholder k"
  by (rule expand_plain) (simp add: placeholder_def)

subsection \<open>C8: an example is used as a regular expression\<close>

text \<open>
  C8. \<open>handleSave\<close> compiles each non-empty example as a regular expression, unescaped.
  When the example is not a valid pattern, as \<open>(\<close> is not, the handler throws and hands
  nothing to \<open>onSave\<close>. When the example contains a metacharacter, text other than the
  example is replaced: with the example \<open>1.5\<close>, the text \<open>125\<close> becomes the placeholder too.
\<close>

theorem handleSave_example_is_a_pattern:
  "(example v = Some e \<and> e \<noteq> [] \<and> compile e = Inl SyntaxError
      \<longrightarrow> handleSave (st\<lparr>r_variables := v # vs\<rparr>) extracted = Inl SyntaxError) \<and>
   compile ''('' = Inl SyntaxError \<and>
   (example v = Some ''1.5'' \<and> CHR ''$'' \<notin> set (key v)
      \<longrightarrow> (\<exists>d. handleSave (st\<lparr>r_variables := [v]\<rparr>) ''Pay 1.5 or 125'' = Inr d \<and>
               bodyMd d = ''Pay '' @ placeholder (key v) @ '' or '' @ placeholder (key v)))"
proof -
  have throws: "handleSave (st\<lparr>r_variables := v # vs\<rparr>) extracted = Inl SyntaxError"
    if "example v = Some e" "e \<noteq> []" "compile e = Inl SyntaxError"
    using that by (simp add: handleSave_def)
  have paren: "compile ''('' = Inl SyntaxError"
    by (simp add: compile_def in_fragment_def syntax_char_def)
  have dot: "\<exists>d. handleSave (st\<lparr>r_variables := [v]\<rparr>) ''Pay 1.5 or 125'' = Inr d \<and>
      bodyMd d = ''Pay '' @ placeholder (key v) @ '' or '' @ placeholder (key v)"
    if ex: "example v = Some ''1.5''" and key: "CHR ''$'' \<notin> set (key v)"
  proof -
    have c: "compile ''1.5'' = Inr [Ch CHR ''1'', AnyChar, Ch CHR ''5'']"
      by (simp add: compile_def in_fragment_def syntax_char_def to_atom_def)
    have "replace_g [Ch CHR ''1'', AnyChar, Ch CHR ''5''] (placeholder (key v)) [] ''Pay 1.5 or 125'' =
        ''Pay '' @ placeholder (key v) @ '' or '' @ placeholder (key v)"
      by (simp add: replace_g.simps matches_at_def line_terminator_def placeholder_plain [OF key])
    with ex c show ?thesis by (simp add: handleSave_def)
  qed
  from throws paren dot show ?thesis by blast
qed


theorem handleSave_example_is_a_pattern_witness:
  "example paren_variable = Some ''('' \<and>
   handleSave (review_of [paren_variable, amount_variable]) ''Pay 1.5 or 125'' = Inl SyntaxError \<and>
   example amount_variable = Some ''1.5'' \<and>
   (\<exists>d. handleSave (review_of [amount_variable]) ''Pay 1.5 or 125'' = Inr d \<and>
        bodyMd d = ''Pay {{amount}} or {{amount}}'')"
proof -
  have a: "example paren_variable = Some ''('' \<and> ''('' \<noteq> []"
    by (simp add: paren_variable_def)
  have b: "example amount_variable = Some ''1.5'' \<and> CHR ''$'' \<notin> set (key amount_variable)"
    by (simp add: amount_variable_def)
  have c: "(review_of [])\<lparr>r_variables := [paren_variable, amount_variable]\<rparr> =
        review_of [paren_variable, amount_variable]"
    "(review_of [])\<lparr>r_variables := [amount_variable]\<rparr> = review_of [amount_variable]"
    by (simp_all add: review_of_def)
  have d: "placeholder (key amount_variable) = ''{{amount}}''"
    by (simp add: placeholder_def amount_variable_def)
  from handleSave_example_is_a_pattern [where st = "review_of []" and v = paren_variable
      and e = "''(''" and vs = "[amount_variable]" and extracted = "''Pay 1.5 or 125''"] a
  have first: "handleSave (review_of [paren_variable, amount_variable]) ''Pay 1.5 or 125'' = Inl SyntaxError"
    unfolding c by blast
  from handleSave_example_is_a_pattern [where st = "review_of []" and v = amount_variable] b
  have "\<exists>d. handleSave (review_of [amount_variable]) ''Pay 1.5 or 125'' = Inr d \<and>
      bodyMd d = ''Pay '' @ placeholder (key amount_variable) @ '' or '' @ placeholder (key amount_variable)"
    unfolding c by blast
  with a b first d show ?thesis by simp
qed

subsection \<open>Placeholders: how a body is read\<close>

lemma placeholder_Cons: "placeholder k @ r = CHR ''{'' # CHR ''{'' # k @ ''}}'' @ r"
  by (simp add: placeholder_def)

lemma brace_free_all: "brace_free k = list_all not_brace k"
  by (auto simp: brace_free_def not_brace_def list_all_iff)

lemma read_placeholder_iff:
  "read_placeholder s = Some (k, r) \<longleftrightarrow> brace_free k \<and> s = placeholder k @ r"
proof
  assume read: "read_placeholder s = Some (k, r)"
  let ?rest = "drop 2 s"
  from read have open_: "take 2 s = ''{{''"
    and k: "k = takeWhile not_brace ?rest"
    and close_: "take 2 (dropWhile not_brace ?rest) = ''}}''"
    and r: "r = drop 2 (dropWhile not_brace ?rest)"
    by (auto simp: read_placeholder_def Let_def split: if_splits)
  have "s = take 2 s @ ?rest" by simp
  also have "?rest = takeWhile not_brace ?rest @ dropWhile not_brace ?rest" by simp
  also have "dropWhile not_brace ?rest =
      take 2 (dropWhile not_brace ?rest) @ drop 2 (dropWhile not_brace ?rest)"
    by simp
  finally have "s = ''{{'' @ k @ ''}}'' @ r"
    unfolding open_ close_ k r by simp
  moreover have "list_all not_brace k"
    unfolding k by (simp add: list_all_iff) (meson set_takeWhileD)
  ultimately show "brace_free k \<and> s = placeholder k @ r"
    by (simp add: brace_free_all placeholder_def)
next
  assume "brace_free k \<and> s = placeholder k @ r"
  then have free: "list_all not_brace k" and s: "s = ''{{'' @ k @ ''}}'' @ r"
    by (simp_all add: brace_free_all placeholder_def)
  have stop: "\<not> not_brace CHR ''}''" by (simp add: not_brace_def)
  from free have "takeWhile not_brace (k @ CHR ''}'' # CHR ''}'' # r) = k"
    using stop by (simp add: takeWhile_tail list_all_iff)
  moreover from free have "dropWhile not_brace (k @ CHR ''}'' # CHR ''}'' # r) = CHR ''}'' # CHR ''}'' # r"
    using stop by (simp add: dropWhile_append3 list_all_iff)
  ultimately show "read_placeholder s = Some (k, r)"
    by (simp add: s read_placeholder_def Let_def)
qed

lemma scan_step: "brace_free k \<Longrightarrow> scan (placeholder k @ r) = Hole k # scan r"
proof -
  assume "brace_free k"
  then have "read_placeholder (placeholder k @ r) = Some (k, r)"
    by (simp add: read_placeholder_iff)
  then show ?thesis by (simp add: placeholder_Cons)
qed

lemma unparse_scan: "concat (map unparse (scan s)) = s"
proof (induction s rule: scan.induct)
  case 1
  then show ?case by simp
next
  case (2 c s)
  show ?case
  proof (cases "read_placeholder (c # s)")
    case None
    with 2 show ?thesis by simp
  next
    case (Some kr)
    obtain k r where kr: "kr = (k, r)" by (cases kr)
    from "2.IH" Some kr have ih: "concat (map unparse (scan r)) = r" by auto
    from Some kr have eq: "c # s = placeholder k @ r" by (simp add: read_placeholder_iff)
    from Some kr have "scan (c # s) = Hole k # scan r" by simp
    then have "concat (map unparse (scan (c # s))) = placeholder k @ r"
      by (simp add: ih)
    with eq show ?thesis by simp
  qed
qed

lemma scan_hole_occurs:
  "Hole k \<in> set (scan s) \<Longrightarrow> brace_free k \<and> sublist (placeholder k) s"
proof (induction s rule: scan.induct)
  case 1
  then show ?case by simp
next
  case (2 c s)
  show ?case
  proof (cases "read_placeholder (c # s)")
    case None
    with 2 have "brace_free k \<and> sublist (placeholder k) s" by simp
    then show ?thesis by (auto intro: sublist_Cons_right [THEN iffD2])
  next
    case (Some kr)
    obtain k' r where kr: "kr = (k', r)" by (cases kr)
    with Some have here: "brace_free k'" "c # s = placeholder k' @ r"
      by (simp_all add: read_placeholder_iff)
    from "2.prems" Some kr have "k = k' \<or> Hole k \<in> set (scan r)" by simp
    then show ?thesis
    proof
      assume "k = k'"
      with here show ?thesis by (metis sublist_appendI append_Nil)
    next
      assume "Hole k \<in> set (scan r)"
      with "2.IH" Some kr have free: "brace_free k" and "sublist (placeholder k) r" by auto
      then obtain ps ss where "r = ps @ placeholder k @ ss" by (auto simp: sublist_def)
      with here have "c # s = (placeholder k' @ ps) @ placeholder k @ ss" by simp
      then have "sublist (placeholder k) (c # s)" by (metis sublist_appendI)
      with free show ?thesis by simp
    qed
  qed
qed

lemma placeholder_no_overlap:
  assumes "brace_free k'" and "x \<noteq> []" and "x @ placeholder k @ w = placeholder k' @ r"
  shows "\<exists>z. x = placeholder k' @ z \<and> r = z @ placeholder k @ w"
proof -
  from assms(3) obtain us where
    "(x = placeholder k' @ us \<and> us @ placeholder k @ w = r) \<or>
     (x @ us = placeholder k' \<and> placeholder k @ w = us @ r)"
    by (auto simp: append_eq_append_conv2)
  then consider
    (inside) z where "x = placeholder k' @ z" "z @ placeholder k @ w = r"
  | (across) us where "x @ us = placeholder k'" "placeholder k @ w = us @ r" "us \<noteq> []"
    by (cases "us = []") auto
  then show ?thesis
  proof cases
    case inside
    then show ?thesis by auto
  next
    case across
    from across(2,3) have hd_us: "hd us = CHR ''{''"
      by (cases us) (auto simp: placeholder_def)
    from assms(2) obtain c x' where x: "x = c # x'" by (cases x) auto
    with across(1) have rest: "x' @ us = CHR ''{'' # k' @ ''}}''"
      by (simp add: placeholder_def)
    show ?thesis
    proof (cases x')
      case Nil
      with rest have us: "us = CHR ''{'' # k' @ ''}}''" by simp
      with across(2) have "CHR ''{'' # k @ ''}}'' @ w = k' @ ''}}'' @ r"
        by (simp add: placeholder_def)
      with assms(1) have False
        by (cases k') (auto simp: brace_free_def)
      then show ?thesis ..
    next
      case (Cons d x'')
      with rest have "x'' @ us = k' @ ''}}''" by simp
      moreover from across(3) have "hd us \<in> set (x'' @ us)" by simp
      ultimately have "CHR ''{'' \<in> set (k' @ ''}}'')" using hd_us by simp
      with assms(1) have False by (auto simp: brace_free_def)
      then show ?thesis ..
    qed
  qed
qed

lemma scan_around:
  assumes "brace_free k"
  shows "scan (u @ placeholder k @ w) = scan u @ Hole k # scan w"
proof (induction u rule: length_induct)
  case (1 u)
  note IH = "1.IH" [rule_format]
  show ?case
  proof (cases u)
    case Nil
    with assms show ?thesis by (simp add: scan_step)
  next
    case (Cons c u')
    show ?thesis
    proof (cases "read_placeholder (u @ placeholder k @ w)")
      case None
      have "read_placeholder u = None"
      proof (rule ccontr)
        assume "read_placeholder u \<noteq> None"
        then obtain k' z where "read_placeholder u = Some (k', z)" by auto
        then have "brace_free k'" "u = placeholder k' @ z" by (simp_all add: read_placeholder_iff)
        then have "read_placeholder (u @ placeholder k @ w) = Some (k', z @ placeholder k @ w)"
          by (simp add: read_placeholder_iff)
        with None show False by simp
      qed
      with None Cons IH [of u'] show ?thesis by simp
    next
      case (Some kr)
      obtain k' r where kr: "kr = (k', r)" by (cases kr)
      with Some have here: "brace_free k'" "u @ placeholder k @ w = placeholder k' @ r"
        by (simp_all add: read_placeholder_iff)
      from Cons have "u \<noteq> []" by simp
      from placeholder_no_overlap [OF here(1) this here(2)]
      obtain z where z: "u = placeholder k' @ z" "r = z @ placeholder k @ w" by blast
      then have "length z < length u" by (simp add: placeholder_def)
      from IH [OF this] have "scan (z @ placeholder k @ w) = scan z @ Hole k # scan w" .
      with z here(1) show ?thesis by (simp add: scan_step)
    qed
  qed
qed

subsection \<open>C7: rendering is one pass\<close>

lemma emit_literals: "list_all (\<lambda>g. \<forall>k. g \<noteq> Hole k) gs \<Longrightarrow>
  concat (map (emit marker vals) gs) = concat (map unparse gs) \<and> hole_keys gs = []"
proof (induction gs)
  case Nil
  then show ?case by simp
next
  case (Cons g gs)
  then show ?case by (cases g) (auto simp: emit_def)
qed

lemma render_without_placeholder:
  assumes "\<forall>k. brace_free k \<longrightarrow> \<not> sublist (placeholder k) body"
  shows "render marker (t\<lparr>body_md := body\<rparr>) vals = (body, [])"
proof -
  have "list_all (\<lambda>g. \<forall>k. g \<noteq> Hole k) (scan body)"
    using assms scan_hole_occurs [of _ body] by (auto simp: list_all_iff)
  from emit_literals [OF this, of marker vals] show ?thesis
    by (simp add: render_def placeholders_def unparse_scan)
qed

lemma hole_keys_app: "hole_keys (gs @ hs) = hole_keys gs @ hole_keys hs"
  by (induction gs) (auto split: segment.splits)

text \<open>
  C7. The renderer of the specification substitutes in one pass, for every body and every
  value map. Around any occurrence of a placeholder the output is the rendering of the
  text before it, then the value of the key exactly as it is (or the marker, with the key
  reported, when the key has no value), then the rendering of the text behind it:
  nothing of a value is read again, whatever it contains. A body in which no placeholder
  occurs is rendered unchanged. These two facts fix the output for every body. The output
  depends on the template through its body only.
\<close>

theorem render_single_pass:
  "(brace_free k \<longrightarrow>
      render marker (t\<lparr>body_md := pre @ placeholder k @ post\<rparr>) vals =
        (fst (render marker (t\<lparr>body_md := pre\<rparr>) vals) @
           (case vals k of Some v \<Rightarrow> v | None \<Rightarrow> marker) @
           fst (render marker (t\<lparr>body_md := post\<rparr>) vals),
         snd (render marker (t\<lparr>body_md := pre\<rparr>) vals) @
           (case vals k of Some v \<Rightarrow> [] | None \<Rightarrow> [k]) @
           snd (render marker (t\<lparr>body_md := post\<rparr>) vals))) \<and>
   ((\<forall>k'. brace_free k' \<longrightarrow> \<not> sublist (placeholder k') body)
      \<longrightarrow> render marker (t\<lparr>body_md := body\<rparr>) vals = (body, [])) \<and>
   (body_md t = body_md t' \<longrightarrow> render marker t vals = render marker t' vals)"
proof -
  have around: "render marker (t\<lparr>body_md := pre @ placeholder k @ post\<rparr>) vals =
        (fst (render marker (t\<lparr>body_md := pre\<rparr>) vals) @
           (case vals k of Some v \<Rightarrow> v | None \<Rightarrow> marker) @
           fst (render marker (t\<lparr>body_md := post\<rparr>) vals),
         snd (render marker (t\<lparr>body_md := pre\<rparr>) vals) @
           (case vals k of Some v \<Rightarrow> [] | None \<Rightarrow> [k]) @
           snd (render marker (t\<lparr>body_md := post\<rparr>) vals))"
    if "brace_free k"
    using scan_around [OF that, of pre post]
    by (simp add: render_def placeholders_def hole_keys_app emit_def split: option.splits)
  from around render_without_placeholder [of body marker t vals]
  show ?thesis by (simp add: render_def placeholders_def)
qed

lemma short_text_has_no_placeholder:
  "length body < 4 \<Longrightarrow> \<not> sublist (placeholder k) body"
proof
  assume "length body < 4" and "sublist (placeholder k) body"
  from this(2) have "length (placeholder k) \<le> length body" by (rule sublist_length_le)
  with \<open>length body < 4\<close> show False by (simp add: placeholder_def)
qed

theorem render_single_pass_witness:
  "nested_values ''policy_number'' = Some ''{{incident_date}}'' \<and>
   nested_values ''incident_date'' = Some ''2024-03-01'' \<and>
   body_md policy_body = ''{ {{policy_number}} }'' \<and>
   render ''[missing]'' policy_body nested_values = (''{ {{incident_date}} }'', [])"
proof -
  have a: "nested_values ''policy_number'' = Some ''{{incident_date}}''"
    and b: "nested_values ''incident_date'' = Some ''2024-03-01''"
    by (simp_all add: nested_values_def)
  have c: "brace_free ''policy_number''" by (simp add: brace_free_def)
  have d: "policy_body = lease_template\<lparr>body_md := ''{ '' @ placeholder ''policy_number'' @ '' }''\<rparr>"
    by (simp add: policy_body_def placeholder_def)
  have e: "body_md policy_body = ''{ {{policy_number}} }''"
    by (simp add: policy_body_def)
  have f: "\<forall>k'. brace_free k' \<longrightarrow> \<not> sublist (placeholder k') ''{ ''"
    "\<forall>k'. brace_free k' \<longrightarrow> \<not> sublist (placeholder k') '' }''"
    by (simp_all add: short_text_has_no_placeholder)
  from render_single_pass [where body = "''{ ''" and t = lease_template and marker = "''[missing]''"
      and vals = nested_values] f(1)
  have pre: "render ''[missing]'' (lease_template\<lparr>body_md := ''{ ''\<rparr>) nested_values = (''{ '', [])"
    by blast
  from render_single_pass [where body = "'' }''" and t = lease_template and marker = "''[missing]''"
      and vals = nested_values] f(2)
  have post: "render ''[missing]'' (lease_template\<lparr>body_md := '' }''\<rparr>) nested_values = ('' }'', [])"
    by blast
  from render_single_pass [where k = "''policy_number''" and t = lease_template
      and marker = "''[missing]''" and vals = nested_values and pre = "''{ ''" and post = "'' }''"] c
  have "render ''[missing]'' policy_body nested_values =
      (fst (render ''[missing]'' (lease_template\<lparr>body_md := ''{ ''\<rparr>) nested_values) @
         (case nested_values ''policy_number'' of Some v \<Rightarrow> v | None \<Rightarrow> ''[missing]'') @
         fst (render ''[missing]'' (lease_template\<lparr>body_md := '' }''\<rparr>) nested_values),
       snd (render ''[missing]'' (lease_template\<lparr>body_md := ''{ ''\<rparr>) nested_values) @
         (case nested_values ''policy_number'' of Some v \<Rightarrow> [] | None \<Rightarrow> [''policy_number'']) @
         snd (render ''[missing]'' (lease_template\<lparr>body_md := '' }''\<rparr>) nested_values))"
    unfolding d by blast
  with a b e pre post show ?thesis by simp
qed

subsection \<open>C4: placeholders of a saved body and the variable list\<close>































end
